theory Spec2Isabelle
  imports Complex_Main
begin

section \<open>Host-language primitives\<close>

text \<open>
  The two scripts run in a browser. The parts of the host they rely on are written out
  here: how a number is printed, how \<open>parseInt\<close> reads a string, how \<open>trim\<close> cuts
  white space. A JavaScript number that the scripts only ever use as an integer is an
  \<open>int option\<close>, where \<open>None\<close> is \<open>NaN\<close>. Strings are byte lists, so white space
  is the ASCII white space; numbers are exact (no rounding above \<open>2^53\<close>).
\<close>

type_synonym jsnum = "int option"

definition digit_char :: "nat \<Rightarrow> char" where
  "digit_char d = ''0123456789'' ! d"

fun show_nat :: "nat \<Rightarrow> string" where
  "show_nat n = (if n < 10 then [digit_char n] else show_nat (n div 10) @ [digit_char (n mod 10)])"

declare show_nat.simps [simp del]

definition show_int :: "int \<Rightarrow> string" where
  "show_int i = (if i < 0 then CHR ''-'' # show_nat (nat (- i)) else show_nat (nat i))"

definition show_jsnum :: "jsnum \<Rightarrow> string" where
  "show_jsnum x = (case x of None \<Rightarrow> ''NaN'' | Some i \<Rightarrow> show_int i)"

definition is_ws :: "char \<Rightarrow> bool" where
  "is_ws c = (c \<in> set [CHR '' '', CHR 0x09, CHR 0x0A, CHR 0x0B, CHR 0x0C, CHR 0x0D])"

definition trim :: "string \<Rightarrow> string" where
  "trim s = rev (dropWhile is_ws (rev (dropWhile is_ws s)))"

text \<open>The value of a character as a digit; 36 for a character that is no digit in any radix used.\<close>

definition dval :: "char \<Rightarrow> nat" where
  "dval c =
     (let k = (of_char c :: nat)
      in if 48 \<le> k \<and> k \<le> 57 then k - 48
         else if 97 \<le> k \<and> k \<le> 102 then k - 87
         else if 65 \<le> k \<and> k \<le> 70 then k - 55
         else 36)"

definition in_radix :: "nat \<Rightarrow> char \<Rightarrow> bool" where
  "in_radix r c = (dval c < r)"

definition radix_value :: "nat \<Rightarrow> string \<Rightarrow> nat" where
  "radix_value r ds = foldl (\<lambda>a c. a * r + dval c) 0 ds"

text \<open>
  \<open>parseInt(s)\<close> with no radix: leading white space is skipped, one sign is read, a
  \<open>0x\<close> or \<open>0X\<close> prefix selects radix 16, and the longest run of digits is the value.
  No digit at all gives \<open>NaN\<close>.
\<close>

definition parseInt :: "string \<Rightarrow> jsnum" where
  "parseInt s =
     (let s1 = dropWhile is_ws s;
          neg = (take 1 s1 = ''-'');
          s2 = (if take 1 s1 = ''-'' \<or> take 1 s1 = ''+'' then drop 1 s1 else s1);
          hex = (take 2 s2 = ''0x'' \<or> take 2 s2 = ''0X'');
          r = (if hex then 16 else 10);
          s3 = (if hex then drop 2 s2 else s2);
          ds = takeWhile (in_radix r) s3
      in if ds = [] then None
         else Some ((if neg then - 1 else 1) * int (radix_value r ds)))"

text \<open>The remainder operator \<open>%\<close> truncates: the result has the sign of the dividend.\<close>

definition js_rem :: "int \<Rightarrow> int \<Rightarrow> int" where
  "js_rem a b = sgn a * (\<bar>a\<bar> mod \<bar>b\<bar>)"

section \<open>Focus timer (part 000)\<close>

text \<open>
  The state is the script's three variables, the elements of the page it writes, the
  record under key \<open>daily_focus_sessions\<close> of the local storage, and the host's table of
  live interval handles (\<open>setInterval\<close> adds one, \<open>clearInterval\<close> removes one).
\<close>

record session_record =
  date :: string
  count :: int

record timer_state =
  countdown :: "nat option"
  timeLeft :: jsnum
  isRunning :: bool
  intervals :: "nat list"
  next_handle :: nat
  timerDisplay :: string
  statusMessage :: string
  title :: string
  minutesInput :: string
  sessionCountDisplay :: string
  inputSection_display :: string
  startBtn_display :: string
  resetBtn_display :: string
  storage :: "session_record option"

definition setInterval :: "timer_state \<Rightarrow> timer_state" where
  "setInterval s =
     s\<lparr>countdown := Some (next_handle s),
       intervals := intervals s @ [next_handle s],
       next_handle := Suc (next_handle s)\<rparr>"

definition clearInterval :: "nat option \<Rightarrow> timer_state \<Rightarrow> timer_state" where
  "clearInterval h s =
     (case h of None \<Rightarrow> s | Some i \<Rightarrow> s\<lparr>intervals := removeAll i (intervals s)\<rparr>)"

definition displayString :: "jsnum \<Rightarrow> string" where
  "displayString seconds =
     (case seconds of
        None \<Rightarrow> ''NaN:NaN''
      | Some n \<Rightarrow>
          (let m = n div 60; s = js_rem n 60
           in (if m < 10 then ''0'' else '''') @ show_int m @ '':'' @
              (if s < 10 then ''0'' else '''') @ show_int s))"

definition updateDisplay :: "jsnum \<Rightarrow> timer_state \<Rightarrow> timer_state" where
  "updateDisplay seconds s =
     s\<lparr>timerDisplay := displayString seconds,
       title := ''('' @ displayString seconds @ '') Focus Timer''\<rparr>"

definition saveStats :: "string \<Rightarrow> int \<Rightarrow> timer_state \<Rightarrow> timer_state" where
  "saveStats d c s = s\<lparr>storage := Some \<lparr>date = d, count = c\<rparr>\<rparr>"

definition loadDailyStats :: "string \<Rightarrow> timer_state \<Rightarrow> timer_state" where
  "loadDailyStats today s =
     (case storage s of
        Some r \<Rightarrow>
          if date r = today then s\<lparr>sessionCountDisplay := show_int (count r)\<rparr>
          else saveStats today 0 s
      | None \<Rightarrow> saveStats today 0 s)"

text \<open>\<open>parseInt(sessionCountDisplay.textContent) || 0\<close>: both \<open>NaN\<close> and 0 give 0.\<close>

definition currentCount :: "timer_state \<Rightarrow> int" where
  "currentCount s = (case parseInt (sessionCountDisplay s) of None \<Rightarrow> 0 | Some c \<Rightarrow> c)"

definition incrementDailyCount :: "string \<Rightarrow> timer_state \<Rightarrow> timer_state" where
  "incrementDailyCount today s =
     (let newCount = currentCount s + 1
      in saveStats today newCount (s\<lparr>sessionCountDisplay := show_int newCount\<rparr>))"

definition completeSession :: "string \<Rightarrow> timer_state \<Rightarrow> timer_state" where
  "completeSession today s =
     incrementDailyCount today
       ((clearInterval (countdown s) s)
          \<lparr>isRunning := False,
           timerDisplay := ''00:00'',
           statusMessage := ''Session Complete!'',
           title := ''Session Complete!''\<rparr>)"

text \<open>The function handed to \<open>setInterval\<close> in \<open>startTimer\<close>.\<close>

definition interval_callback :: "string \<Rightarrow> timer_state \<Rightarrow> timer_state" where
  "interval_callback today s =
     (let s1 = s\<lparr>timeLeft := map_option (\<lambda>t. t - 1) (timeLeft s)\<rparr>;
          s2 = updateDisplay (timeLeft s1) s1
      in case timeLeft s2 of
           Some t \<Rightarrow> if t \<le> 0 then completeSession today s2 else s2
         | None \<Rightarrow> s2)"

definition startTimer :: "int \<Rightarrow> timer_state \<Rightarrow> timer_state" where
  "startTimer durationSeconds s =
     setInterval
       (updateDisplay (Some durationSeconds)
          (s\<lparr>isRunning := True,
             timeLeft := Some durationSeconds,
             inputSection_display := ''none'',
             startBtn_display := ''none'',
             resetBtn_display := ''inline-block'',
             statusMessage := ''Stay Focused...''\<rparr>))"

definition resetTimer :: "timer_state \<Rightarrow> timer_state" where
  "resetTimer s =
     (updateDisplay (Some (25 * 60))
        ((clearInterval (countdown s) s)\<lparr>isRunning := False, minutesInput := show_int 25\<rparr>))
       \<lparr>statusMessage := ''Ready to Focus?'',
        title := ''Daily Focus Timer'',
        inputSection_display := ''flex'',
        startBtn_display := ''inline-block''\<rparr>"

text \<open>
  The click handler of the start button. The first component is the text of the alert it
  raises, if any.
\<close>

definition startBtn_click :: "timer_state \<Rightarrow> string option \<times> timer_state" where
  "startBtn_click s =
     (if isRunning s then (None, s)
      else case parseInt (minutesInput s) of
             None \<Rightarrow> (Some ''Please enter a valid time between 1 and 180 minutes.'', s)
           | Some minutes \<Rightarrow>
               if minutes < 1 \<or> minutes > 180
               then (Some ''Please enter a valid time between 1 and 180 minutes.'', s)
               else (None, startTimer (minutes * 60) s))"

text \<open>
  One second of the host: every interval that is live when the second ends runs its
  function once, in the order the intervals were made; one cleared by an earlier function
  of the same second does not run. The argument is the calendar day at that moment.
\<close>

definition host_second :: "string \<Rightarrow> timer_state \<Rightarrow> timer_state" where
  "host_second today s =
     fold (\<lambda>h st. if h \<in> set (intervals st) then interval_callback today st else st)
       (intervals s) s"

fun seconds_pass :: "string list \<Rightarrow> timer_state \<Rightarrow> timer_state" where
  "seconds_pass [] s = s"
| "seconds_pass (d # ds) s = seconds_pass ds (host_second d s)"

text \<open>
  The phase of the specification's state machine, read off the script's state: running
  while \<open>isRunning\<close> holds, complete while the status line shows the completion
  message, idle otherwise.
\<close>

datatype phase = Idle | Running | Complete

definition phase_of :: "timer_state \<Rightarrow> phase" where
  "phase_of s =
     (if isRunning s then Running
      else if statusMessage s = ''Session Complete!'' then Complete
      else Idle)"

text \<open>
  What the scripts leave true of the timer between two events: while running, the one
  live interval is the one held in \<open>countdown\<close> and the time left is positive; otherwise
  no interval is live.
\<close>

definition timer_ok :: "timer_state \<Rightarrow> bool" where
  "timer_ok s =
     (if isRunning s
      then (case countdown s of None \<Rightarrow> False | Some h \<Rightarrow> intervals s = [h]) \<and>
           (case timeLeft s of None \<Rightarrow> False | Some t \<Rightarrow> 0 < t)
      else intervals s = [])"

definition running_with :: "nat \<Rightarrow> int \<Rightarrow> timer_state \<Rightarrow> bool" where
  "running_with h t s =
     (isRunning s \<and> countdown s = Some h \<and> intervals s = [h] \<and> timeLeft s = Some t)"

text \<open>
  A page as the browser hands it to the script: nothing started, no stored record. The
  texts of the elements are those \<open>resetTimer\<close> writes; the page's markup is not part of
  the sources.
\<close>

definition fresh_page :: timer_state where
  "fresh_page =
     \<lparr>countdown = None, timeLeft = None, isRunning = False, intervals = [], next_handle = 1,
      timerDisplay = ''25:00'', statusMessage = ''Ready to Focus?'',
      title = ''Daily Focus Timer'', minutesInput = ''25'', sessionCountDisplay = ''0'',
      inputSection_display = ''flex'', startBtn_display = ''inline-block'',
      resetBtn_display = ''none'', storage = None\<rparr>"

text \<open>The two parts of a displayed time, cut at the colon.\<close>

definition minutes_part :: "string \<Rightarrow> string" where
  "minutes_part txt = takeWhile (\<lambda>c. c \<noteq> CHR '':'') txt"

definition seconds_part :: "string \<Rightarrow> string" where
  "seconds_part txt = drop 1 (dropWhile (\<lambda>c. c \<noteq> CHR '':'') txt)"

definition is_dec :: "char \<Rightarrow> bool" where
  "is_dec c = (c \<in> set ''0123456789'')"

section \<open>Study planner (study-planner/script.js)\<close>

subsection \<open>Parsed JSON\<close>

text \<open>
  The value \<open>JSON.parse\<close> returns. Numbers are the integers (a fraction or an exponent
  form that is no integer is outside the model), printed in full; an object is the list
  of its members, each key once.
\<close>

datatype json =
    JNull
  | JBool bool
  | JNum int
  | JStr string
  | JArr "json list"
  | JObj "(string \<times> json) list"

datatype js_exn = Error string | TypeError | SyntaxError

fun truthy :: "json \<Rightarrow> bool" where
  "truthy JNull = False"
| "truthy (JBool b) = b"
| "truthy (JNum n) = (n \<noteq> 0)"
| "truthy (JStr s) = (s \<noteq> [])"
| "truthy (JArr xs) = True"
| "truthy (JObj kvs) = True"

text \<open>
  Reading one of the properties \<open>subject\<close>, \<open>topic\<close>, \<open>minutes\<close> of a value that is not
  \<open>null\<close>: an object gives its member, anything else has no such property
  (\<open>undefined\<close>, here \<open>None\<close>). On \<open>null\<close> the read throws; \<open>import_items\<close> has that case.
\<close>

fun field :: "json \<Rightarrow> string \<Rightarrow> json option" where
  "field (JObj kvs) k = map_of kvs k"
| "field v k = None"

fun join_comma :: "string list \<Rightarrow> string" where
  "join_comma [] = []"
| "join_comma [x] = x"
| "join_comma (x # y # ys) = x @ '','' @ join_comma (y # ys)"

text \<open>The string \<open>parseInt\<close> makes of its argument before reading it.\<close>

fun js_toString :: "json \<Rightarrow> string" where
  "js_toString JNull = ''null''"
| "js_toString (JBool b) = (if b then ''true'' else ''false'')"
| "js_toString (JNum n) = show_int n"
| "js_toString (JStr s) = s"
| "js_toString (JArr xs) = join_comma (map (\<lambda>x. if x = JNull then [] else js_toString x) xs)"
| "js_toString (JObj kvs) = ''[object Object]''"

subsection \<open>Tasks and the planner's state\<close>

record task =
  task_id :: int
  subject :: json
  topic :: json
  minutes :: jsnum
  completed :: bool

text \<open>
  The line under the import box: empty, the request to paste something, or
  \<open>'Invalid JSON: ' + e.message\<close> for the exception caught. The message of an exception
  the host raises (\<open>TypeError\<close>, \<open>SyntaxError\<close>) is the host's text and is not modelled.
\<close>

datatype error_line = Cleared | Paste_first | Invalid_JSON js_exn

text \<open>
  The state: the array \<open>tasks\<close>, the two keys of the local storage, the input fields and
  what \<open>updateStats\<close> writes (for the bar, the percentage it computes). The text stored
  under \<open>study_planner_tasks\<close> is kept as the list it was serialised from. The rows of the
  task list on the page are rebuilt from \<open>tasks\<close> by every \<open>renderTasks\<close> and read by no
  function; they are its result here, not a field.
\<close>

record planner_state =
  tasks :: "task list"
  stored_tasks :: "task list option"
  stored_date :: "string option"
  subjectInput :: string
  topicInput :: string
  timeInput :: string
  jsonInput :: string
  importError :: error_line
  statsTotal :: string
  statsCompleted :: string
  progressBar_width :: "rat option"

subsection \<open>Statistics\<close>

text \<open>Addition of numbers: \<open>NaN\<close> absorbs.\<close>

definition js_add :: "jsnum \<Rightarrow> jsnum \<Rightarrow> jsnum" where
  "js_add a b = (case a of None \<Rightarrow> None | Some x \<Rightarrow> (case b of None \<Rightarrow> None | Some y \<Rightarrow> Some (x + y)))"

definition total_minutes :: "task list \<Rightarrow> jsnum" where
  "total_minutes ts = foldl (\<lambda>sum t. js_add sum (minutes t)) (Some 0) ts"

definition completed_minutes :: "task list \<Rightarrow> jsnum" where
  "completed_minutes ts = foldl (\<lambda>sum t. js_add sum (minutes t)) (Some 0) (filter completed ts)"

text \<open>
  \<open>total === 0 ? 0 : (completed / total) * 100\<close>, as an exact fraction (the script
  computes it in floating point).
\<close>

definition percent :: "jsnum \<Rightarrow> jsnum \<Rightarrow> rat option" where
  "percent total_sum completed_sum =
     (case total_sum of
        None \<Rightarrow> None
      | Some t \<Rightarrow>
          if t = 0 then Some 0
          else (case completed_sum of
                  None \<Rightarrow> None
                | Some c \<Rightarrow> Some (rat_of_int c / rat_of_int t * 100)))"

definition updateStats :: "planner_state \<Rightarrow> planner_state" where
  "updateStats s =
     s\<lparr>statsTotal := show_jsnum (total_minutes (tasks s)) @ '' min'',
       statsCompleted := show_jsnum (completed_minutes (tasks s)) @ '' min'',
       progressBar_width := percent (total_minutes (tasks s)) (completed_minutes (tasks s))\<rparr>"

subsection \<open>Rendering\<close>

text \<open>
  \<open>escapeHtml\<close>: a falsy value gives the empty text; a string has its five characters
  replaced, one \<open>replace\<close> after the other; any other value has no \<open>replace\<close>, and the
  call throws a \<open>TypeError\<close>.
\<close>

definition replace_all :: "char \<Rightarrow> string \<Rightarrow> string \<Rightarrow> string" where
  "replace_all c r s = concat (map (\<lambda>x. if x = c then r else [x]) s)"

definition escapeHtml :: "json \<Rightarrow> js_exn + string" where
  "escapeHtml text =
     (if truthy text
      then (case text of
              JStr s \<Rightarrow>
                Inr (replace_all (CHR 0x27) ''&#039;''
                      (replace_all (CHR 0x22) ''&quot;''
                        (replace_all CHR ''>'' ''&gt;''
                          (replace_all CHR ''<'' ''&lt;''
                            (replace_all CHR ''&'' ''&amp;'' s)))))
            | _ \<Rightarrow> Inl TypeError)
      else Inr [])"

text \<open>
  One row of the list: whether it is marked completed (its class and its checkbox), the
  \<open>data-id\<close> of the checkbox, the escaped subject and topic, and the time.
\<close>

record row =
  row_completed :: bool
  row_data_id :: string
  row_subject :: string
  row_topic :: string
  row_time :: string

text \<open>
  The loop of \<open>renderTasks\<close>: the rows in order, or the exception of the first task whose
  subject or topic cannot be escaped. Nothing catches it here.
\<close>

fun render_rows :: "task list \<Rightarrow> js_exn + row list" where
  "render_rows [] = Inr []"
| "render_rows (t # ts) =
     (case escapeHtml (subject t) of
        Inl e \<Rightarrow> Inl e
      | Inr subject_html \<Rightarrow>
          (case escapeHtml (topic t) of
             Inl e \<Rightarrow> Inl e
           | Inr topic_html \<Rightarrow>
               (case render_rows ts of
                  Inl e \<Rightarrow> Inl e
                | Inr rows \<Rightarrow>
                    Inr (\<lparr>row_completed = completed t, row_data_id = show_int (task_id t),
                          row_subject = subject_html, row_topic = topic_html,
                          row_time = show_jsnum (minutes t) @ '' min''\<rparr> # rows))))"

text \<open>A task both of whose texts \<open>escapeHtml\<close> takes without throwing.\<close>

definition escapable :: "task \<Rightarrow> bool" where
  "escapable t =
     (case escapeHtml (subject t) of
        Inl e \<Rightarrow> False
      | Inr x \<Rightarrow> (case escapeHtml (topic t) of Inl e \<Rightarrow> False | Inr y \<Rightarrow> True))"

text \<open>\<open>renderTasks\<close>; no rows stand for the message that there are no tasks.\<close>

definition renderTasks :: "planner_state \<Rightarrow> js_exn + row list" where
  "renderTasks s = render_rows (tasks s)"

subsection \<open>Storage\<close>

definition loadTasks :: "planner_state \<Rightarrow> planner_state" where
  "loadTasks s = (case stored_tasks s of None \<Rightarrow> s | Some ts \<Rightarrow> s\<lparr>tasks := ts\<rparr>)"

definition saveTasks :: "planner_state \<Rightarrow> planner_state" where
  "saveTasks s = updateStats (s\<lparr>stored_tasks := Some (tasks s)\<rparr>)"

definition checkDayReset :: "string \<Rightarrow> planner_state \<Rightarrow> planner_state" where
  "checkDayReset today s =
     (if stored_date s \<noteq> Some today
      then s\<lparr>tasks := [], stored_tasks := Some [], stored_date := Some today\<rparr>
      else s)"

text \<open>
  What a handler ends with: it returns, it returns after an alert, or an exception leaves
  it uncaught.
\<close>

datatype outcome = Returned | Alert string | Uncaught js_exn

text \<open>
  The handler of \<open>DOMContentLoaded\<close>: when \<open>renderTasks\<close> throws, \<open>updateStats\<close> is not
  reached.
\<close>

definition planner_loaded :: "string \<Rightarrow> planner_state \<Rightarrow> outcome \<times> planner_state" where
  "planner_loaded today s =
     (let s1 = loadTasks (checkDayReset today s)
      in case renderTasks s1 of
           Inl e \<Rightarrow> (Uncaught e, s1)
         | Inr rows \<Rightarrow> (Returned, updateStats s1))"

subsection \<open>Adding, importing, toggling, clearing\<close>

text \<open>
  \<open>addManualTask\<close>; \<open>now\<close> is what \<open>Date.now()\<close> returns. The task is pushed and saved
  before \<open>renderTasks\<close> runs; when that throws (on a task already in the list), the
  inputs are not cleared.
\<close>

definition addManualTask :: "int \<Rightarrow> planner_state \<Rightarrow> outcome \<times> planner_state" where
  "addManualTask now s =
     (let subj = trim (subjectInput s);
          top = trim (topicInput s);
          mins = parseInt (timeInput s)
      in if subj = [] \<or> top = [] \<or> (case mins of None \<Rightarrow> True | Some m \<Rightarrow> m \<le> 0)
         then (Alert ''Please fill in all fields correctly.'', s)
         else (let s1 = saveTasks
                          (s\<lparr>tasks := tasks s @
                               [\<lparr>task_id = now, subject = JStr subj, topic = JStr top,
                                 minutes = mins, completed = False\<rparr>]\<rparr>)
               in case renderTasks s1 of
                    Inl e \<Rightarrow> (Uncaught e, s1)
                  | Inr rows \<Rightarrow>
                      (Returned, s1\<lparr>subjectInput := [], topicInput := [], timeInput := []\<rparr>)))"

text \<open>The test \<open>!item.subject || !item.topic || !item.minutes\<close> on an item that is not \<open>null\<close>.\<close>

definition missing_fields :: "json \<Rightarrow> bool" where
  "missing_fields item =
     (\<not> (case field item ''subject'' of None \<Rightarrow> False | Some v \<Rightarrow> truthy v) \<or>
      \<not> (case field item ''topic'' of None \<Rightarrow> False | Some v \<Rightarrow> truthy v) \<or>
      \<not> (case field item ''minutes'' of None \<Rightarrow> False | Some v \<Rightarrow> truthy v))"

definition new_task :: "int \<Rightarrow> json \<Rightarrow> task" where
  "new_task i item =
     \<lparr>task_id = i,
      subject = (case field item ''subject'' of None \<Rightarrow> JNull | Some v \<Rightarrow> v),
      topic = (case field item ''topic'' of None \<Rightarrow> JNull | Some v \<Rightarrow> v),
      minutes = (case field item ''minutes'' of None \<Rightarrow> None | Some v \<Rightarrow> parseInt (js_toString v)),
      completed = False\<rparr>"

text \<open>
  The body of \<open>data.forEach\<close>, from position \<open>index\<close> on. \<open>clock index\<close> is what
  \<open>Date.now()\<close> returns while the item at \<open>index\<close> is handled. A throw ends the loop.
\<close>

fun import_items :: "(nat \<Rightarrow> int) \<Rightarrow> nat \<Rightarrow> json list \<Rightarrow> task list \<Rightarrow> js_exn + task list" where
  "import_items clock index [] newTasks = Inr newTasks"
| "import_items clock index (item # rest) newTasks =
     (if item = JNull then Inl TypeError
      else if missing_fields item
      then Inl (Error (''Item at index '' @ show_nat index @ '' is missing fields.''))
      else import_items clock (Suc index) rest
             (newTasks @ [new_task (clock index + int index) item]))"

text \<open>
  The \<open>try\<close> block up to the merge. \<open>JSON_parse\<close> is the host's parser: \<open>None\<close> when it
  throws.
\<close>

definition parse_and_validate ::
    "(string \<Rightarrow> json option) \<Rightarrow> (nat \<Rightarrow> int) \<Rightarrow> string \<Rightarrow> js_exn + task list" where
  "parse_and_validate JSON_parse clock rawJson =
     (case JSON_parse rawJson of
        None \<Rightarrow> Inl SyntaxError
      | Some parsed \<Rightarrow>
          (case parsed of
             JArr items \<Rightarrow> import_items clock 0 items []
           | _ \<Rightarrow> Inl (Error ''JSON must be an array of objects.'')))"

text \<open>
  \<open>importJsonTasks\<close>. The first component is the text of the alert raised, if any. The
  merge, \<open>saveTasks\<close> and \<open>renderTasks\<close> are inside the \<open>try\<close>: an exception of
  \<open>renderTasks\<close> is caught like the others and sets the error line, after the new tasks
  have been merged and saved.
\<close>

definition importJsonTasks ::
    "(string \<Rightarrow> json option) \<Rightarrow> (nat \<Rightarrow> int) \<Rightarrow> planner_state \<Rightarrow> string option \<times> planner_state" where
  "importJsonTasks JSON_parse clock s =
     (let rawJson = trim (jsonInput s);
          s0 = s\<lparr>importError := Cleared\<rparr>
      in if rawJson = [] then (None, s0\<lparr>importError := Paste_first\<rparr>)
         else (case parse_and_validate JSON_parse clock rawJson of
                 Inl e \<Rightarrow> (None, s0\<lparr>importError := Invalid_JSON e\<rparr>)
               | Inr newTasks \<Rightarrow>
                   (let s1 = saveTasks (s0\<lparr>tasks := tasks s0 @ newTasks\<rparr>)
                    in case renderTasks s1 of
                         Inl e \<Rightarrow> (None, s1\<lparr>importError := Invalid_JSON e\<rparr>)
                       | Inr rows \<Rightarrow>
                           (Some (''Successfully imported '' @ show_nat (length newTasks) @
                                  '' tasks.''),
                            s1\<lparr>jsonInput := []\<rparr>))))"

text \<open>
  \<open>toggleTask\<close> for a change event whose checkbox carries \<open>data-id = i\<close> and is now
  \<open>checked\<close>: the first task with that id is the one \<open>find\<close> returns.
\<close>

fun set_completed :: "int \<Rightarrow> bool \<Rightarrow> task list \<Rightarrow> task list" where
  "set_completed i checked [] = []"
| "set_completed i checked (t # ts) =
     (if task_id t = i then t\<lparr>completed := checked\<rparr> # ts
      else t # set_completed i checked ts)"

definition toggleTask :: "int \<Rightarrow> bool \<Rightarrow> planner_state \<Rightarrow> planner_state" where
  "toggleTask i checked s =
     (if list_ex (\<lambda>t. task_id t = i) (tasks s)
      then updateStats (saveTasks (s\<lparr>tasks := set_completed i checked (tasks s)\<rparr>))
      else s)"

text \<open>\<open>clearAllTasks\<close>; its \<open>renderTasks\<close> runs on the empty list, where nothing can throw.\<close>

definition clearAllTasks :: "bool \<Rightarrow> planner_state \<Rightarrow> planner_state" where
  "clearAllTasks confirmed s = (if confirmed then saveTasks (s\<lparr>tasks := []\<rparr>) else s)"

text \<open>
  The invariant of a task in the specification's data model: subject and topic are
  strings that are not empty once trimmed, minutes is an integer above 0.
\<close>

definition task_valid :: "task \<Rightarrow> bool" where
  "task_valid t =
     ((case subject t of JStr x \<Rightarrow> trim x \<noteq> [] | _ \<Rightarrow> False) \<and>
      (case topic t of JStr x \<Rightarrow> trim x \<noteq> [] | _ \<Rightarrow> False) \<and>
      (case minutes t of None \<Rightarrow> False | Some m \<Rightarrow> 0 < m))"

text \<open>A planner page with nothing entered and nothing stored.\<close>

definition empty_planner :: planner_state where
  "empty_planner =
     \<lparr>tasks = [], stored_tasks = None, stored_date = None, subjectInput = [], topicInput = [],
      timeInput = [], jsonInput = [], importError = Cleared, statsTotal = ''0 min'',
      statsCompleted = ''0 min'', progressBar_width = Some 0\<rparr>"

subsection \<open>Pasted texts\<close>

text \<open>
  The JSON text of one item with a subject, a topic and the text \<open>m\<close> for its minutes,
  and the value the host's parser returns for it when \<open>m\<close> is the text of \<open>v\<close>.
\<close>

definition quoted :: "string \<Rightarrow> string" where
  "quoted s = CHR 0x22 # s @ [CHR 0x22]"

definition item_text :: "string \<Rightarrow> string \<Rightarrow> string \<Rightarrow> string" where
  "item_text a b m =
     ''{'' @ quoted ''subject'' @ '':'' @ quoted a @ '','' @ quoted ''topic'' @ '':'' @ quoted b @
     '','' @ quoted ''minutes'' @ '':'' @ m @ ''}''"

definition item :: "string \<Rightarrow> string \<Rightarrow> json \<Rightarrow> json" where
  "item a b v = JObj [(''subject'', JStr a), (''topic'', JStr b), (''minutes'', v)]"

text \<open>A parser of which one value is known: it reads \<open>txt\<close> as \<open>v\<close>.\<close>

definition reads_as :: "string \<Rightarrow> json \<Rightarrow> string \<Rightarrow> json option" where
  "reads_as txt v = (\<lambda>t. if t = txt then Some v else None)"

text \<open>
  Pasted texts with their values: the specification's batch whose second item has no
  topic and no minutes; a batch of items that have all three fields but a negative
  number, a text that is no number, and a blank subject with minutes \<open>"0"\<close>; a batch
  of three good items and a batch of one; a batch of one item whose subject is the number
  5; and a batch of two whose second has negative minutes.
\<close>

definition missing_batch_text :: string where
  "missing_batch_text =
     ''['' @ item_text ''A'' ''B'' ''10'' @ '',{'' @ quoted ''subject'' @ '':'' @ quoted ''C'' @ ''}]''"

definition missing_batch :: json where
  "missing_batch = JArr [item ''A'' ''B'' (JNum 10), JObj [(''subject'', JStr ''C'')]]"

definition unchecked_batch_text :: string where
  "unchecked_batch_text =
     ''['' @ item_text ''A'' ''B'' ''-5'' @ '','' @ item_text ''A'' ''B'' (quoted ''abc'') @ '','' @
     item_text ''  '' ''B'' (quoted ''0'') @ '']''"

definition unchecked_batch :: json where
  "unchecked_batch =
     JArr [item ''A'' ''B'' (JNum (- 5)), item ''A'' ''B'' (JStr ''abc''), item ''  '' ''B'' (JStr ''0'')]"

definition three_batch_text :: string where
  "three_batch_text =
     ''['' @ item_text ''A'' ''B'' ''10'' @ '','' @ item_text ''C'' ''D'' ''20'' @ '','' @
     item_text ''E'' ''F'' ''30'' @ '']''"

definition three_batch :: json where
  "three_batch = JArr [item ''A'' ''B'' (JNum 10), item ''C'' ''D'' (JNum 20), item ''E'' ''F'' (JNum 30)]"

definition one_batch_text :: string where
  "one_batch_text = ''['' @ item_text ''G'' ''H'' ''40'' @ '']''"

definition one_batch :: json where
  "one_batch = JArr [item ''G'' ''H'' (JNum 40)]"

definition number_subject_batch_text :: string where
  "number_subject_batch_text =
     ''[{'' @ quoted ''subject'' @ '':5,'' @ quoted ''topic'' @ '':'' @ quoted ''B'' @ '','' @
     quoted ''minutes'' @ '':10}]''"

definition number_subject_batch :: json where
  "number_subject_batch =
     JArr [JObj [(''subject'', JNum 5), (''topic'', JStr ''B''), (''minutes'', JNum 10)]]"

definition negative_batch_text :: string where
  "negative_batch_text =
     ''['' @ item_text ''A'' ''B'' ''10'' @ '','' @ item_text ''C'' ''D'' ''-5'' @ '']''"

definition negative_batch :: json where
  "negative_batch = JArr [item ''A'' ''B'' (JNum 10), item ''C'' ''D'' (JNum (- 5))]"

text \<open>
  The minutes of a task as an integer (0 for \<open>NaN\<close>), and the test that they are a number
  that is not negative.
\<close>

definition minutes_int :: "task \<Rightarrow> int" where
  "minutes_int t = (case minutes t of None \<Rightarrow> 0 | Some m \<Rightarrow> m)"

definition minutes_nonneg :: "task \<Rightarrow> bool" where
  "minutes_nonneg t = (case minutes t of None \<Rightarrow> False | Some m \<Rightarrow> 0 \<le> m)"

text \<open>An element the loop of the import accepts: not \<open>null\<close>, all three fields truthy.\<close>

definition accepted :: "json \<Rightarrow> bool" where
  "accepted x = (x \<noteq> JNull \<and> \<not> missing_fields x)"

text \<open>One component of the displayed time, padded: the expression \<open>updateDisplay\<close> writes twice.\<close>

definition pad2 :: "nat \<Rightarrow> string" where
  "pad2 k = (if k < 10 then ''0'' else '''') @ show_nat k"

section \<open>Printing and reading numbers\<close>

lemma digit_char_dec: "d < 10 \<Longrightarrow> is_dec (digit_char d) \<and> dval (digit_char d) = d"
proof -
  assume "d < 10"
  then have "d \<in> {0, 1, 2, 3, 4, 5, 6, 7, 8, 9}" by auto
  then show ?thesis
    by (auto simp: is_dec_def digit_char_def dval_def)
qed

lemma is_dec_facts:
  "is_dec c \<Longrightarrow>
     \<not> is_ws c \<and> c \<noteq> CHR ''-'' \<and> c \<noteq> CHR ''+'' \<and> c \<noteq> CHR ''x'' \<and> c \<noteq> CHR ''X'' \<and>
     c \<noteq> CHR '':'' \<and> in_radix 10 c"
  by (auto simp: is_dec_def is_ws_def in_radix_def dval_def)

lemma show_nat_dec: "list_all is_dec (show_nat n) \<and> show_nat n \<noteq> []"
proof (induction n rule: show_nat.induct)
  case (1 n)
  show ?case
  proof (cases "n < 10")
    case True
    then show ?thesis using digit_char_dec [of n] by (simp add: show_nat.simps [of n])
  next
    case False
    then have "n mod 10 < 10" by simp
    with False 1 show ?thesis
      using digit_char_dec [of "n mod 10"] by (simp add: show_nat.simps [of n])
  qed
qed

lemma radix_value_snoc: "radix_value r (ds @ [c]) = radix_value r ds * r + dval c"
  by (simp add: radix_value_def)

lemma radix_value_show_nat: "radix_value 10 (show_nat n) = n"
proof (induction n rule: show_nat.induct)
  case (1 n)
  show ?case
  proof (cases "n < 10")
    case True
    then show ?thesis
      using digit_char_dec [of n] by (simp add: show_nat.simps [of n] radix_value_def)
  next
    case False
    then have "n mod 10 < 10" by simp
    with False 1 show ?thesis
      using digit_char_dec [of "n mod 10"]
      by (simp add: show_nat.simps [of n] radix_value_snoc)
  qed
qed

lemma parse_digits:
  assumes "list_all is_dec ds" "ds \<noteq> []"
  shows "parseInt ds = Some (int (radix_value 10 ds))"
    and "parseInt (CHR ''-'' # ds) = Some (- int (radix_value 10 ds))"
proof -
  obtain c cs where ds: "ds = c # cs" using assms(2) by (cases ds) auto
  have c: "is_dec c" and cs: "list_all is_dec cs" using assms(1) ds by auto
  have nohex: "(take 2 ds = ''0x'') = False" "(take 2 ds = ''0X'') = False"
  proof -
    have "take 2 ds \<noteq> ''0x'' \<and> take 2 ds \<noteq> ''0X''"
    proof (cases cs)
      case Nil
      then show ?thesis using ds by simp
    next
      case (Cons e es)
      then have "is_dec e" using cs by simp
      then show ?thesis using ds Cons is_dec_facts [of e] by auto
    qed
    then show "(take 2 ds = ''0x'') = False" "(take 2 ds = ''0X'') = False" by simp_all
  qed
  have all: "takeWhile (in_radix 10) ds = ds"
    using assms(1) is_dec_facts by (induction ds) auto
  have ws: "dropWhile is_ws ds = ds"
    using is_dec_facts [OF c] by (simp add: ds)
  have sign: "(take 1 ds = ''-'') = False" "(take 1 ds = ''+'') = False"
    using is_dec_facts [OF c] by (simp_all add: ds)
  have "parseInt ds = (if ds = [] then None else Some (1 * int (radix_value 10 ds)))"
    by (simp only: parseInt_def Let_def ws sign nohex all simp_thms if_False)
  then show "parseInt ds = Some (int (radix_value 10 ds))"
    using assms(2) by simp
  have ws': "dropWhile is_ws (CHR ''-'' # ds) = CHR ''-'' # ds"
    by (simp add: is_ws_def)
  have sign': "(take 1 (CHR ''-'' # ds) = ''-'') = True" "drop 1 (CHR ''-'' # ds) = ds"
    by simp_all
  have "parseInt (CHR ''-'' # ds) = (if ds = [] then None else Some (- 1 * int (radix_value 10 ds)))"
    by (simp only: parseInt_def Let_def ws' sign' nohex all simp_thms if_False if_True)
  then show "parseInt (CHR ''-'' # ds) = Some (- int (radix_value 10 ds))"
    using assms(2) by simp
qed

text \<open>Reading back a number the script printed gives the number.\<close>

lemma parseInt_show_int: "parseInt (show_int i) = Some i"
  using parse_digits [of "show_nat (nat i)"] parse_digits [of "show_nat (nat (- i))"]
    show_nat_dec [of "nat i"] show_nat_dec [of "nat (- i)"]
  by (simp add: show_int_def radix_value_show_nat)

lemma show_int_25: "show_int 25 = ''25''"
  by (simp add: show_int_def show_nat.simps digit_char_def)

lemma displayString_1500: "displayString (Some 1500) = ''25:00''"
  by (simp add: displayString_def js_rem_def show_int_def show_nat.simps digit_char_def)

section \<open>The timer\<close>

subsection \<open>What each function writes\<close>

lemma resetTimer_fields:
  "isRunning (resetTimer s) = False"
  "statusMessage (resetTimer s) = ''Ready to Focus?''"
  "timerDisplay (resetTimer s) = displayString (Some 1500)"
  "minutesInput (resetTimer s) = show_int 25"
  "sessionCountDisplay (resetTimer s) = sessionCountDisplay s"
  "storage (resetTimer s) = storage s"
  "timeLeft (resetTimer s) = timeLeft s"
  "intervals (resetTimer s) =
     (case countdown s of None \<Rightarrow> intervals s | Some h \<Rightarrow> removeAll h (intervals s))"
  by (simp_all add: resetTimer_def updateDisplay_def clearInterval_def split: option.splits)

lemma completeSession_fields:
  "isRunning (completeSession d s) = False"
  "statusMessage (completeSession d s) = ''Session Complete!''"
  "timerDisplay (completeSession d s) = ''00:00''"
  "timeLeft (completeSession d s) = timeLeft s"
  "sessionCountDisplay (completeSession d s) = show_int (currentCount s + 1)"
  "storage (completeSession d s) = Some \<lparr>date = d, count = currentCount s + 1\<rparr>"
  "intervals (completeSession d s) =
     (case countdown s of None \<Rightarrow> intervals s | Some h \<Rightarrow> removeAll h (intervals s))"
  by (simp_all add: completeSession_def incrementDailyCount_def saveStats_def clearInterval_def
      currentCount_def Let_def split: option.splits)

lemma currentCount_completeSession:
  "currentCount (completeSession d s) = currentCount s + 1"
  by (simp add: currentCount_def [of "completeSession d s"] completeSession_fields
      parseInt_show_int)

lemma startTimer_fields:
  "sessionCountDisplay (startTimer n s) = sessionCountDisplay s"
  "storage (startTimer n s) = storage s"
  "timeLeft (startTimer n s) = Some n"
  "timerDisplay (startTimer n s) = displayString (Some n)"
  "isRunning (startTimer n s) = True"
  "statusMessage (startTimer n s) = ''Stay Focused...''"
  by (simp_all add: startTimer_def setInterval_def updateDisplay_def)

lemma startTimer_running:
  "running_with (next_handle s) n (startTimer n s) = (intervals s = [])"
  by (auto simp: running_with_def startTimer_def setInterval_def updateDisplay_def)

lemma running_phase: "running_with h t s \<Longrightarrow> phase_of s = Running"
  by (simp add: running_with_def phase_of_def)

subsection \<open>Seconds passing\<close>

lemma host_second_idle: "intervals s = [] \<Longrightarrow> host_second d s = s"
  by (simp add: host_second_def)

lemma seconds_pass_idle: "intervals s = [] \<Longrightarrow> seconds_pass ds s = s"
  by (induction ds) (simp_all add: host_second_idle)

lemma seconds_pass_append: "seconds_pass (xs @ ys) s = seconds_pass ys (seconds_pass xs s)"
  by (induction xs arbitrary: s) simp_all

lemma host_second_running:
  assumes "running_with h t s" "1 < t"
  shows "running_with h (t - 1) (host_second d s)"
    and "sessionCountDisplay (host_second d s) = sessionCountDisplay s"
    and "storage (host_second d s) = storage s"
    and "statusMessage (host_second d s) = statusMessage s"
    and "timerDisplay (host_second d s) = displayString (Some (t - 1))"
  using assms
  by (simp_all add: running_with_def host_second_def interval_callback_def updateDisplay_def)

lemma host_second_last:
  assumes "running_with h 1 s"
  shows "host_second d s =
     completeSession d (updateDisplay (Some 0) (s\<lparr>timeLeft := Some 0\<rparr>))"
  using assms
  by (simp add: running_with_def host_second_def interval_callback_def updateDisplay_def)

lemma countdown_run:
  assumes "running_with h t s" "int (length ds) < t"
  shows "running_with h (t - int (length ds)) (seconds_pass ds s) \<and>
         sessionCountDisplay (seconds_pass ds s) = sessionCountDisplay s \<and>
         storage (seconds_pass ds s) = storage s \<and>
         statusMessage (seconds_pass ds s) = statusMessage s"
  using assms
proof (induction ds arbitrary: s t)
  case Nil
  then show ?case by simp
next
  case (Cons d ds)
  then have t: "1 < t" by simp
  note step = host_second_running [OF Cons.prems(1) t, of d]
  have "int (length ds) < t - 1" using Cons.prems(2) by simp
  from Cons.IH [OF step(1) this] show ?case
    by (simp add: step algebra_simps)
qed

subsection \<open>The start button\<close>

lemma timer_ok_idle: "timer_ok s \<Longrightarrow> \<not> isRunning s \<Longrightarrow> intervals s = []"
  by (simp add: timer_ok_def)

lemma startBtn_click_valid:
  assumes "\<not> isRunning s" "parseInt (minutesInput s) = Some m" "1 \<le> m" "m \<le> 180"
  shows "startBtn_click s = (None, startTimer (m * 60) s)"
  using assms by (simp add: startBtn_click_def)

lemma parseInt_examples:
  "parseInt ''0'' = Some 0" "parseInt ''181'' = Some 181" "parseInt ''25'' = Some 25"
  "parseInt ''1'' = Some 1" "parseInt ''abc'' = None" "parseInt '''' = None"
  by (simp_all add: parseInt_def is_ws_def in_radix_def dval_def radix_value_def)

subsection \<open>A countdown from start to end\<close>

text \<open>A started countdown of \<open>t\<close> seconds: what holds after each second, and at the end.\<close>

lemma countdown_before_end:
  assumes "running_with h t s" "int (length ds) < t"
  shows "phase_of (seconds_pass ds s) = Running \<and>
         timeLeft (seconds_pass ds s) = Some (t - int (length ds)) \<and>
         currentCount (seconds_pass ds s) = currentCount s \<and>
         storage (seconds_pass ds s) = storage s"
  using countdown_run [OF assms]
  by (auto simp: running_phase currentCount_def running_with_def)

lemma countdown_end:
  assumes "running_with h t s" "int (length ds) + 1 = t"
  shows "phase_of (seconds_pass (ds @ [d]) s) = Complete \<and>
         timeLeft (seconds_pass (ds @ [d]) s) = Some 0 \<and>
         timerDisplay (seconds_pass (ds @ [d]) s) = ''00:00'' \<and>
         currentCount (seconds_pass (ds @ [d]) s) = currentCount s + 1 \<and>
         sessionCountDisplay (seconds_pass (ds @ [d]) s) = show_int (currentCount s + 1) \<and>
         storage (seconds_pass (ds @ [d]) s) = Some \<lparr>date = d, count = currentCount s + 1\<rparr> \<and>
         intervals (seconds_pass (ds @ [d]) s) = []"
proof -
  let ?s1 = "seconds_pass ds s"
  have lt: "int (length ds) < t" using assms(2) by simp
  note before = countdown_run [OF assms(1) lt]
  have "t - int (length ds) = 1" using assms(2) by simp
  with before have one: "running_with h 1 ?s1" by simp
  have cc: "currentCount ?s1 = currentCount s" using before by (simp add: currentCount_def)
  let ?s2 = "updateDisplay (Some 0) (?s1\<lparr>timeLeft := Some 0\<rparr>)"
  have last: "seconds_pass (ds @ [d]) s = completeSession d ?s2"
    by (simp add: seconds_pass_append host_second_last [OF one])
  have s2: "currentCount ?s2 = currentCount s" "countdown ?s2 = Some h" "intervals ?s2 = [h]"
    "timeLeft ?s2 = Some 0"
    using one cc by (simp_all add: updateDisplay_def currentCount_def running_with_def)
  show ?thesis
    unfolding last
    by (simp add: phase_of_def completeSession_fields currentCount_completeSession s2)
qed

subsection \<open>The invariant is kept\<close>

lemma timer_ok_fresh_page: "timer_ok fresh_page"
  by (simp add: fresh_page_def timer_ok_def)

lemma timer_ok_resetTimer: "timer_ok s \<Longrightarrow> timer_ok (resetTimer s)"
  by (auto simp: timer_ok_def resetTimer_fields split: option.splits if_splits)

lemma timer_ok_loadDailyStats: "timer_ok s \<Longrightarrow> timer_ok (loadDailyStats today s)"
  by (auto simp: timer_ok_def loadDailyStats_def saveStats_def split: option.splits if_splits)

lemma timer_ok_startBtn_click: "timer_ok s \<Longrightarrow> timer_ok (snd (startBtn_click s))"
  by (auto simp: timer_ok_def startBtn_click_def startTimer_def setInterval_def updateDisplay_def
      split: option.splits if_splits)

lemma timer_ok_host_second: "timer_ok s \<Longrightarrow> timer_ok (host_second d s)"
proof (cases "isRunning s")
  case False
  assume "timer_ok s"
  with False show ?thesis by (simp add: timer_ok_idle host_second_idle)
next
  case True
  assume ok: "timer_ok s"
  with True obtain h t where run: "running_with h t s" and pos: "0 < t"
    by (auto simp: timer_ok_def running_with_def split: option.splits)
  show ?thesis
  proof (cases "t = 1")
    case True
    with run have "running_with h 1 s" by simp
    from host_second_last [OF this, of d] run show ?thesis
      by (simp add: timer_ok_def completeSession_fields updateDisplay_def running_with_def)
  next
    case False
    with pos have "1 < t" by simp
    from host_second_running(1) [OF run this, of d] \<open>1 < t\<close> show ?thesis
      by (simp add: timer_ok_def running_with_def)
  qed
qed

lemma timer_ok_seconds_pass: "timer_ok s \<Longrightarrow> timer_ok (seconds_pass ds s)"
  by (induction ds arbitrary: s) (simp_all add: timer_ok_host_second)

subsection \<open>The daily record\<close>

lemma loadDailyStats_same_day:
  assumes "storage p = Some \<lparr>date = today, count = c\<rparr>"
  shows "loadDailyStats today p = p\<lparr>sessionCountDisplay := show_int c\<rparr>"
  using assms by (simp add: loadDailyStats_def)




text \<open>The page's load handler: the statistics are written only when the rendering went through.\<close>

lemma planner_loaded_outcomes:
  "(renderTasks (loadTasks (checkDayReset today s)) = Inl e \<longrightarrow>
      planner_loaded today s = (Uncaught e, loadTasks (checkDayReset today s))) \<and>
   (renderTasks (loadTasks (checkDayReset today s)) = Inr rows \<longrightarrow>
      planner_loaded today s = (Returned, updateStats (loadTasks (checkDayReset today s))))"
  by (simp add: planner_loaded_def)



subsection \<open>The displayed time\<close>

lemma show_nat_small: "n < 10 \<Longrightarrow> length (show_nat n) = 1"
  by (simp add: show_nat.simps [of n])

lemma show_nat_two: "10 \<le> n \<Longrightarrow> n < 100 \<Longrightarrow> length (show_nat n) = 2"
  by (simp add: show_nat.simps [of n] show_nat_small)

lemma show_nat_long: "10 \<le> n \<Longrightarrow> 2 \<le> length (show_nat n)"
  using show_nat_dec [of "n div 10"]
  by (cases "show_nat (n div 10)") (simp_all add: show_nat.simps [of n])

lemma pad2_dec: "list_all is_dec (pad2 k)"
  using show_nat_dec [of k] by (simp add: pad2_def is_dec_def)

lemma pad2_value: "radix_value 10 (pad2 k) = k"
proof -
  have "radix_value 10 (CHR ''0'' # ds) = radix_value 10 ds" for ds
    by (simp add: radix_value_def dval_def)
  then show ?thesis by (simp add: pad2_def radix_value_show_nat)
qed

lemma pad2_length: "2 \<le> length (pad2 k)" "k < 100 \<Longrightarrow> length (pad2 k) = 2"
  using show_nat_long [of k] show_nat_small [of k] show_nat_two [of k]
  by (auto simp: pad2_def)

lemma displayString_pad2:
  assumes "0 \<le> n"
  shows "displayString (Some n) = pad2 (nat (n div 60)) @ '':'' @ pad2 (nat (n mod 60))"
proof -
  have "js_rem n 60 = n mod 60" using assms by (simp add: js_rem_def sgn_if)
  moreover have "0 \<le> n div 60" "0 \<le> n mod 60" using assms by simp_all
  ultimately show ?thesis
    by (simp add: displayString_def pad2_def show_int_def Let_def nat_less_iff)
qed

lemma split_at_colon:
  assumes "list_all is_dec ms"
  shows "minutes_part (ms @ '':'' @ ss) = ms" "seconds_part (ms @ '':'' @ ss) = ss"
proof -
  have "\<forall>c \<in> set ms. c \<noteq> CHR '':''" using assms is_dec_facts by (auto simp: list_all_iff)
  then show "minutes_part (ms @ '':'' @ ss) = ms" "seconds_part (ms @ '':'' @ ss) = ss"
    by (simp_all add: minutes_part_def seconds_part_def)
qed

section \<open>Claims about the timer and the daily record\<close>

text \<open>
  C1, as the script has it. From any state the timer can be in, \<open>resetTimer\<close> stops the
  interval and leaves the timer idle; the display shows the 25 minute default, \<open>25:00\<close>,
  the text of 1500 seconds, and the minutes field holds 25, so that the next start counts
  from 1500; the session count, shown and stored, is untouched. The variable \<open>timeLeft\<close>
  itself is not written: it keeps its value until the next start sets it.
\<close>

theorem resetTimer_restores_page:
  assumes "timer_ok s"
  shows "phase_of (resetTimer s) = Idle \<and>
     isRunning (resetTimer s) = False \<and>
     intervals (resetTimer s) = [] \<and>
     timerDisplay (resetTimer s) = displayString (Some 1500) \<and>
     timerDisplay (resetTimer s) = ''25:00'' \<and>
     minutesInput (resetTimer s) = ''25'' \<and>
     parseInt (minutesInput (resetTimer s)) = Some 25 \<and>
     timeLeft (resetTimer s) = timeLeft s \<and>
     sessionCountDisplay (resetTimer s) = sessionCountDisplay s \<and>
     currentCount (resetTimer s) = currentCount s \<and>
     storage (resetTimer s) = storage s"
proof -
  have "intervals (resetTimer s) = []"
    using assms by (auto simp: resetTimer_fields timer_ok_def split: option.splits if_splits)
  moreover have "parseInt (minutesInput (resetTimer s)) = Some 25"
    by (simp only: resetTimer_fields parseInt_show_int)
  ultimately show ?thesis
    by (simp add: phase_of_def resetTimer_fields currentCount_def show_int_25 displayString_1500)
qed

lemma ten_minutes_started:
  "snd (startBtn_click (fresh_page\<lparr>minutesInput := ''10''\<rparr>)) =
     fresh_page\<lparr>minutesInput := ''10'', isRunning := True, timeLeft := Some 600,
       inputSection_display := ''none'', startBtn_display := ''none'',
       resetBtn_display := ''inline-block'', statusMessage := ''Stay Focused...'',
       timerDisplay := ''10:00'', title := ''(10:00) Focus Timer'',
       countdown := Some 1, intervals := [1], next_handle := 2\<rparr>"
  by (simp add: fresh_page_def startBtn_click_def parseInt_def is_ws_def in_radix_def dval_def
      radix_value_def startTimer_def setInterval_def updateDisplay_def displayString_def
      js_rem_def show_int_def show_nat.simps digit_char_def)

theorem resetTimer_restores_page_witness:
  "timer_ok (snd (startBtn_click (fresh_page\<lparr>minutesInput := ''10''\<rparr>))) \<and>
   phase_of (snd (startBtn_click (fresh_page\<lparr>minutesInput := ''10''\<rparr>))) = Running \<and>
   phase_of (resetTimer (snd (startBtn_click (fresh_page\<lparr>minutesInput := ''10''\<rparr>)))) = Idle \<and>
   intervals (resetTimer (snd (startBtn_click (fresh_page\<lparr>minutesInput := ''10''\<rparr>)))) = [] \<and>
   timerDisplay (resetTimer (snd (startBtn_click (fresh_page\<lparr>minutesInput := ''10''\<rparr>)))) = ''25:00''"
proof -
  have ok: "timer_ok (snd (startBtn_click (fresh_page\<lparr>minutesInput := ''10''\<rparr>)))"
    by (simp add: ten_minutes_started timer_ok_def)
  have run: "phase_of (snd (startBtn_click (fresh_page\<lparr>minutesInput := ''10''\<rparr>))) = Running"
    by (simp add: ten_minutes_started phase_of_def)
  show ?thesis
    using ok run resetTimer_restores_page [OF ok] by blast
qed

text \<open>
  C1 as stated asks for the remaining seconds to be 1500 after a reset. Ten minutes
  started and then reset: \<open>timeLeft\<close> is still 600.
\<close>

theorem resetTimer_keeps_timeLeft_counterexample:
  "timeLeft (resetTimer (snd (startBtn_click (fresh_page\<lparr>minutesInput := ''10''\<rparr>)))) = Some 600 \<and>
   timeLeft (resetTimer (snd (startBtn_click (fresh_page\<lparr>minutesInput := ''10''\<rparr>)))) \<noteq> Some 1500"
  by (simp add: resetTimer_fields ten_minutes_started)

text \<open>
  C6. A click on the start button while the timer runs does nothing. On an idle timer, a
  minutes field that reads as no number or as a number outside 1..180 raises the alert
  and leaves the state as it was. A number \<open>m\<close> in 1..180 starts the countdown at
  \<open>m * 60\<close> seconds, shown as such, and after one second \<open>m * 60 - 1\<close> are left.
\<close>

theorem startBtn_click_validates:
  "(isRunning s \<longrightarrow> startBtn_click s = (None, s)) \<and>
   (\<not> isRunning s \<and>
      (parseInt (minutesInput s) = None \<or>
       (\<exists>k. parseInt (minutesInput s) = Some k \<and> (k < 1 \<or> 180 < k))) \<longrightarrow>
      startBtn_click s = (Some ''Please enter a valid time between 1 and 180 minutes.'', s)) \<and>
   (timer_ok s \<and> \<not> isRunning s \<and> parseInt (minutesInput s) = Some m \<and> 1 \<le> m \<and> m \<le> 180 \<longrightarrow>
      fst (startBtn_click s) = None \<and>
      phase_of (snd (startBtn_click s)) = Running \<and>
      timeLeft (snd (startBtn_click s)) = Some (m * 60) \<and>
      timerDisplay (snd (startBtn_click s)) = displayString (Some (m * 60)) \<and>
      timeLeft (host_second d (snd (startBtn_click s))) = Some (m * 60 - 1) \<and>
      timerDisplay (host_second d (snd (startBtn_click s))) = displayString (Some (m * 60 - 1)))"
proof (intro conjI impI)
  assume "isRunning s"
  then show "startBtn_click s = (None, s)" by (simp add: startBtn_click_def)
next
  assume "\<not> isRunning s \<and>
      (parseInt (minutesInput s) = None \<or>
       (\<exists>k. parseInt (minutesInput s) = Some k \<and> (k < 1 \<or> 180 < k)))"
  then show "startBtn_click s = (Some ''Please enter a valid time between 1 and 180 minutes.'', s)"
    by (auto simp: startBtn_click_def)
next
  assume a: "timer_ok s \<and> \<not> isRunning s \<and> parseInt (minutesInput s) = Some m \<and> 1 \<le> m \<and> m \<le> 180"
  then have click: "startBtn_click s = (None, startTimer (m * 60) s)"
    by (simp add: startBtn_click_valid)
  have idle: "intervals s = []" using a timer_ok_idle by blast
  then have run: "running_with (next_handle s) (m * 60) (startTimer (m * 60) s)"
    by (simp add: startTimer_running)
  have big: "1 < m * 60" using a by simp
  note step = host_second_running [OF run big, of d]
  show "fst (startBtn_click s) = None" by (simp add: click)
  show "phase_of (snd (startBtn_click s)) = Running"
    using run by (simp add: click running_phase)
  show "timeLeft (snd (startBtn_click s)) = Some (m * 60)"
    by (simp add: click startTimer_fields)
  show "timerDisplay (snd (startBtn_click s)) = displayString (Some (m * 60))"
    by (simp add: click startTimer_fields)
  show "timeLeft (host_second d (snd (startBtn_click s))) = Some (m * 60 - 1)"
    using step(1) by (simp add: click running_with_def)
  show "timerDisplay (host_second d (snd (startBtn_click s))) = displayString (Some (m * 60 - 1))"
    using step(5) by (simp add: click)
qed

theorem startBtn_click_validates_witness:
  "startBtn_click (fresh_page\<lparr>minutesInput := ''0''\<rparr>) =
     (Some ''Please enter a valid time between 1 and 180 minutes.'', fresh_page\<lparr>minutesInput := ''0''\<rparr>) \<and>
   startBtn_click (fresh_page\<lparr>minutesInput := ''181''\<rparr>) =
     (Some ''Please enter a valid time between 1 and 180 minutes.'', fresh_page\<lparr>minutesInput := ''181''\<rparr>) \<and>
   phase_of (fresh_page\<lparr>minutesInput := ''181''\<rparr>) = Idle \<and>
   startBtn_click (fresh_page\<lparr>isRunning := True\<rparr>) = (None, fresh_page\<lparr>isRunning := True\<rparr>) \<and>
   timeLeft (snd (startBtn_click fresh_page)) = Some 1500 \<and>
   timeLeft (host_second ''Tue Nov 03 2026'' (snd (startBtn_click fresh_page))) = Some 1499"
proof -
  have f: "\<not> isRunning fresh_page" "minutesInput fresh_page = ''25''" "timer_ok fresh_page"
    "statusMessage fresh_page = ''Ready to Focus?''"
    by (simp_all add: fresh_page_def timer_ok_def)
  have a: "startBtn_click (fresh_page\<lparr>minutesInput := ''0''\<rparr>) =
     (Some ''Please enter a valid time between 1 and 180 minutes.'', fresh_page\<lparr>minutesInput := ''0''\<rparr>)"
    using startBtn_click_validates [of "fresh_page\<lparr>minutesInput := ''0''\<rparr>"] f
    by (simp add: parseInt_examples)
  have b: "startBtn_click (fresh_page\<lparr>minutesInput := ''181''\<rparr>) =
     (Some ''Please enter a valid time between 1 and 180 minutes.'', fresh_page\<lparr>minutesInput := ''181''\<rparr>)"
    using startBtn_click_validates [of "fresh_page\<lparr>minutesInput := ''181''\<rparr>"] f
    by (simp add: parseInt_examples)
  have c: "phase_of (fresh_page\<lparr>minutesInput := ''181''\<rparr>) = Idle"
    using f by (simp add: phase_of_def)
  have d: "startBtn_click (fresh_page\<lparr>isRunning := True\<rparr>) = (None, fresh_page\<lparr>isRunning := True\<rparr>)"
    using startBtn_click_validates [of "fresh_page\<lparr>isRunning := True\<rparr>"] by simp
  have e: "timeLeft (snd (startBtn_click fresh_page)) = Some 1500 \<and>
     timeLeft (host_second ''Tue Nov 03 2026'' (snd (startBtn_click fresh_page))) = Some 1499"
    using startBtn_click_validates [of fresh_page 25 "''Tue Nov 03 2026''"] f
    by (simp add: parseInt_examples)
  from a b c d e show ?thesis by blast
qed

text \<open>
  C5. A timer started with \<open>m\<close> minutes, \<open>m\<close> in 1..180, runs for \<open>m * 60\<close> seconds
  without touching the session count; the last of these seconds completes it, once: the
  count, shown and stored, is one more than before, the interval is cleared, and however
  many seconds follow, nothing changes any more.
\<close>

theorem session_completes_once:
  assumes "timer_ok s" "\<not> isRunning s" "parseInt (minutesInput s) = Some m" "1 \<le> m" "m \<le> 180"
    and "int (length ds) = m * 60"
  shows "(\<forall>k < length ds.
            phase_of (seconds_pass (take k ds) (snd (startBtn_click s))) = Running \<and>
            timeLeft (seconds_pass (take k ds) (snd (startBtn_click s))) = Some (m * 60 - int k) \<and>
            currentCount (seconds_pass (take k ds) (snd (startBtn_click s))) = currentCount s \<and>
            storage (seconds_pass (take k ds) (snd (startBtn_click s))) = storage s) \<and>
         phase_of (seconds_pass ds (snd (startBtn_click s))) = Complete \<and>
         timeLeft (seconds_pass ds (snd (startBtn_click s))) = Some 0 \<and>
         currentCount (seconds_pass ds (snd (startBtn_click s))) = currentCount s + 1 \<and>
         storage (seconds_pass ds (snd (startBtn_click s))) =
           Some \<lparr>date = last ds, count = currentCount s + 1\<rparr> \<and>
         intervals (seconds_pass ds (snd (startBtn_click s))) = [] \<and>
         (\<forall>es. seconds_pass (ds @ es) (snd (startBtn_click s)) =
               seconds_pass ds (snd (startBtn_click s)))"
proof -
  let ?s0 = "startTimer (m * 60) s"
  have click: "snd (startBtn_click s) = ?s0"
    using assms by (simp add: startBtn_click_valid)
  have "intervals s = []" using assms(1,2) by (rule timer_ok_idle)
  then have run: "running_with (next_handle s) (m * 60) ?s0"
    by (simp add: startTimer_running)
  have cc0: "currentCount ?s0 = currentCount s" "storage ?s0 = storage s"
    by (simp_all add: currentCount_def startTimer_fields)
  have before: "phase_of (seconds_pass (take k ds) ?s0) = Running \<and>
            timeLeft (seconds_pass (take k ds) ?s0) = Some (m * 60 - int k) \<and>
            currentCount (seconds_pass (take k ds) ?s0) = currentCount s \<and>
            storage (seconds_pass (take k ds) ?s0) = storage s" if "k < length ds" for k
  proof -
    have "int (length (take k ds)) < m * 60" using that assms(6) by simp
    from countdown_before_end [OF run this] that show ?thesis by (simp add: cc0 min_def)
  qed
  have "ds \<noteq> []" using assms(4,6) by auto
  then have split: "ds = butlast ds @ [last ds]" by simp
  have "length ds = Suc (length (butlast ds))" using \<open>ds \<noteq> []\<close> by simp
  then have "int (length (butlast ds)) + 1 = m * 60" using assms(6) by linarith
  note fin = countdown_end [OF run this, of "last ds", folded split]
  have after: "seconds_pass (ds @ es) ?s0 = seconds_pass ds ?s0" for es
    using fin by (simp add: seconds_pass_append seconds_pass_idle)
  show ?thesis
    unfolding click using before fin after by (simp add: cc0)
qed

theorem session_completes_once_witness:
  "timer_ok (fresh_page\<lparr>minutesInput := ''1''\<rparr>) \<and>
   parseInt (minutesInput (fresh_page\<lparr>minutesInput := ''1''\<rparr>)) = Some 1 \<and>
   phase_of (seconds_pass (take 59 (replicate 60 ''Tue Nov 03 2026''))
      (snd (startBtn_click (fresh_page\<lparr>minutesInput := ''1''\<rparr>)))) = Running \<and>
   phase_of (seconds_pass (replicate 60 ''Tue Nov 03 2026'')
      (snd (startBtn_click (fresh_page\<lparr>minutesInput := ''1''\<rparr>)))) = Complete \<and>
   currentCount (seconds_pass (replicate 60 ''Tue Nov 03 2026'')
      (snd (startBtn_click (fresh_page\<lparr>minutesInput := ''1''\<rparr>)))) = 1 \<and>
   storage (seconds_pass (replicate 60 ''Tue Nov 03 2026'')
      (snd (startBtn_click (fresh_page\<lparr>minutesInput := ''1''\<rparr>)))) =
     Some \<lparr>date = ''Tue Nov 03 2026'', count = 1\<rparr> \<and>
   seconds_pass (replicate 60 ''Tue Nov 03 2026'' @ replicate 5 ''Tue Nov 03 2026'')
      (snd (startBtn_click (fresh_page\<lparr>minutesInput := ''1''\<rparr>))) =
     seconds_pass (replicate 60 ''Tue Nov 03 2026'')
      (snd (startBtn_click (fresh_page\<lparr>minutesInput := ''1''\<rparr>)))"
proof -
  let ?p = "fresh_page\<lparr>minutesInput := ''1''\<rparr>"
  let ?ds = "replicate 60 ''Tue Nov 03 2026''"
  have ok: "timer_ok ?p" and idle: "\<not> isRunning ?p"
    by (simp_all add: fresh_page_def timer_ok_def)
  have one: "parseInt (minutesInput ?p) = Some 1"
    by (simp add: parseInt_examples)
  have len: "int (length ?ds) = 1 * 60" by simp
  have zero: "currentCount ?p = 0"
    by (simp add: currentCount_def fresh_page_def parseInt_examples)
  have l: "last ?ds = ''Tue Nov 03 2026''" by simp
  note t = session_completes_once [OF ok idle one _ _ len, simplified zero l]
  have k: "(59::nat) < length ?ds" by simp
  from t ok one k show ?thesis by simp
qed

text \<open>
  C10. A session started on \<open>day1\<close>, with \<open>c\<close> sessions stored for that day, whose last
  second falls on another day \<open>day2\<close>: the completion stores \<open>c + 1\<close> under \<open>day2\<close>. It
  reads the count from the page and never looks at the stored date. Only loading the
  page on \<open>day2\<close> would have written 0.
\<close>

theorem rollover_at_completion:
  assumes "timer_ok p" "\<not> isRunning p" "storage p = Some \<lparr>date = day1, count = c\<rparr>"
    and "parseInt (minutesInput p) = Some m" "1 \<le> m" "m \<le> 180"
    and "int (length ds) + 1 = m * 60" "day2 \<noteq> day1"
  shows "currentCount (loadDailyStats day1 p) = c \<and>
     storage (seconds_pass ds (snd (startBtn_click (loadDailyStats day1 p)))) =
       Some \<lparr>date = day1, count = c\<rparr> \<and>
     storage (seconds_pass (ds @ [day2]) (snd (startBtn_click (loadDailyStats day1 p)))) =
       Some \<lparr>date = day2, count = c + 1\<rparr> \<and>
     sessionCountDisplay (seconds_pass (ds @ [day2]) (snd (startBtn_click (loadDailyStats day1 p)))) =
       show_int (c + 1) \<and>
     storage (loadDailyStats day2 (loadDailyStats day1 p)) = Some \<lparr>date = day2, count = 0\<rparr>"
proof -
  let ?s = "loadDailyStats day1 p"
  have s: "?s = p\<lparr>sessionCountDisplay := show_int c\<rparr>"
    using assms(3) by (rule loadDailyStats_same_day)
  have cc: "currentCount ?s = c"
    by (simp add: s currentCount_def parseInt_show_int)
  have idle: "\<not> isRunning ?s" "intervals ?s = []" "storage ?s = Some \<lparr>date = day1, count = c\<rparr>"
    "parseInt (minutesInput ?s) = Some m"
    using assms(1-4) by (simp_all add: s timer_ok_def)
  have click: "snd (startBtn_click ?s) = startTimer (m * 60) ?s"
    using idle assms(5,6) by (simp add: startBtn_click_valid)
  have run: "running_with (next_handle ?s) (m * 60) (startTimer (m * 60) ?s)"
    using idle by (simp add: startTimer_running)
  have st0: "currentCount (startTimer (m * 60) ?s) = c"
    "storage (startTimer (m * 60) ?s) = Some \<lparr>date = day1, count = c\<rparr>"
    using cc idle by (simp_all add: currentCount_def startTimer_fields)
  have lt: "int (length ds) < m * 60" using assms(7) by simp
  note before = countdown_before_end [OF run lt]
  note fin = countdown_end [OF run assms(7), of day2]
  have stale: "storage (loadDailyStats day2 ?s) = Some \<lparr>date = day2, count = 0\<rparr>"
    using idle(3) assms(8) by (simp add: loadDailyStats_def saveStats_def)
  show ?thesis
    unfolding click using before fin stale cc by (simp add: st0)
qed

theorem rollover_at_completion_witness:
  "storage (fresh_page\<lparr>minutesInput := ''1'',
       storage := Some \<lparr>date = ''Mon Nov 02 2026'', count = 3\<rparr>\<rparr>) =
     Some \<lparr>date = ''Mon Nov 02 2026'', count = 3\<rparr> \<and>
   ''Tue Nov 03 2026'' \<noteq> ''Mon Nov 02 2026'' \<and>
   storage (seconds_pass (replicate 59 ''Mon Nov 02 2026'' @ [''Tue Nov 03 2026''])
     (snd (startBtn_click (loadDailyStats ''Mon Nov 02 2026''
        (fresh_page\<lparr>minutesInput := ''1'',
           storage := Some \<lparr>date = ''Mon Nov 02 2026'', count = 3\<rparr>\<rparr>))))) =
     Some \<lparr>date = ''Tue Nov 03 2026'', count = 4\<rparr>"
proof -
  let ?p = "fresh_page\<lparr>minutesInput := ''1'',
       storage := Some \<lparr>date = ''Mon Nov 02 2026'', count = 3\<rparr>\<rparr>"
  have ok: "timer_ok ?p" and idle: "\<not> isRunning ?p"
    by (simp_all add: fresh_page_def timer_ok_def)
  have st: "storage ?p = Some \<lparr>date = ''Mon Nov 02 2026'', count = 3\<rparr>" by simp
  have one: "parseInt (minutesInput ?p) = Some 1"
    by (simp add: parseInt_examples)
  have len: "int (length (replicate 59 ''Mon Nov 02 2026'')) + 1 = 1 * 60" by simp
  have ne: "''Tue Nov 03 2026'' \<noteq> ''Mon Nov 02 2026''" by simp
  note t = rollover_at_completion [OF ok idle st one _ _ len ne]
  from t st ne show ?thesis by simp
qed

text \<open>
  C9. For a number of seconds that is not negative, the displayed text is the minutes,
  a colon, the seconds: both are decimal digits, padded with one 0 when below 10. The
  seconds are \<open>n mod 60\<close> in exactly two digits; the minutes are \<open>n div 60\<close>, printed
  whole in as many digits as they need (no wrap at 60), and read back as that number.
\<close>

theorem displayString_format:
  assumes "0 \<le> n"
  shows "displayString (Some n) =
       minutes_part (displayString (Some n)) @ '':'' @ seconds_part (displayString (Some n)) \<and>
     minutes_part (displayString (Some n)) =
       (if n div 60 < 10 then ''0'' else '''') @ show_nat (nat (n div 60)) \<and>
     seconds_part (displayString (Some n)) =
       (if n mod 60 < 10 then ''0'' else '''') @ show_nat (nat (n mod 60)) \<and>
     list_all is_dec (minutes_part (displayString (Some n))) \<and>
     list_all is_dec (seconds_part (displayString (Some n))) \<and>
     2 \<le> length (minutes_part (displayString (Some n))) \<and>
     length (seconds_part (displayString (Some n))) = 2 \<and>
     int (radix_value 10 (minutes_part (displayString (Some n)))) = n div 60 \<and>
     int (radix_value 10 (seconds_part (displayString (Some n)))) = n mod 60"
proof -
  let ?m = "nat (n div 60)" and ?s = "nat (n mod 60)"
  have d: "displayString (Some n) = pad2 ?m @ '':'' @ pad2 ?s"
    using assms by (rule displayString_pad2)
  have parts: "minutes_part (displayString (Some n)) = pad2 ?m"
    "seconds_part (displayString (Some n)) = pad2 ?s"
    unfolding d by (rule split_at_colon [OF pad2_dec])+
  have small: "?s < 100" using assms by simp
  have nn: "0 \<le> n div 60" "0 \<le> n mod 60" using assms by simp_all
  have p: "pad2 ?m = (if n div 60 < 10 then ''0'' else '''') @ show_nat ?m"
    "pad2 ?s = (if n mod 60 < 10 then ''0'' else '''') @ show_nat ?s"
    using nn by (simp_all add: pad2_def nat_less_iff)
  show ?thesis
    unfolding parts
    using d p pad2_dec [of ?m] pad2_dec [of ?s] pad2_length(1) [of ?m] pad2_length(2) [OF small]
      pad2_value [of ?m] pad2_value [of ?s] nn
    by simp
qed

theorem displayString_format_witness:
  "(0::int) \<le> 10800 \<and> displayString (Some 10800) = ''180:00'' \<and>
   minutes_part (displayString (Some 10800)) = ''180'' \<and>
   seconds_part (displayString (Some 10800)) = ''00'' \<and>
   int (radix_value 10 (minutes_part (displayString (Some 10800)))) = 180"
proof -
  have h: "(0::int) \<le> 10800" by simp
  have s: "show_nat 180 = ''180''" "show_nat 0 = ''0''"
    by (simp_all add: show_nat.simps digit_char_def)
  note t = displayString_format [OF h]
  from t have m: "minutes_part (displayString (Some 10800)) = ''180''" by (simp add: s)
  from t have sec: "seconds_part (displayString (Some 10800)) = ''00''" by (simp add: s)
  from t have "displayString (Some 10800) =
       minutes_part (displayString (Some 10800)) @ '':'' @ seconds_part (displayString (Some 10800))"
    by blast
  then have whole: "displayString (Some 10800) = ''180:00''" by (simp add: m sec)
  from t have "int (radix_value 10 (minutes_part (displayString (Some 10800)))) = 10800 div 60"
    by blast
  then have v: "int (radix_value 10 (minutes_part (displayString (Some 10800)))) = 180" by simp
  from h whole m sec v show ?thesis by blast
qed




section \<open>The planner\<close>

subsection \<open>The loop of the import\<close>

lemma import_items_accepted:
  assumes "list_all accepted items"
  shows "import_items clock k items acc =
     Inr (acc @ map (\<lambda>(i, x). new_task (clock i + int i) x) (zip [k..<k + length items] items))"
  using assms
proof (induction items arbitrary: k acc)
  case Nil
  then show ?case by simp
next
  case (Cons x xs)
  then have ax: "accepted x" and xs: "list_all accepted xs" by simp_all
  from ax have x: "x \<noteq> JNull" "\<not> missing_fields x" by (simp_all add: accepted_def)
  have "[k..<k + length (x # xs)] = k # [Suc k..<Suc k + length xs]"
    by (subst upt_rec) simp
  with Cons.IH [OF xs, of "Suc k"] x show ?case by simp
qed

lemma import_items_first_bad:
  assumes "i < length items" "\<forall>j<i. accepted (items ! j)" "\<not> accepted (items ! i)"
  shows "import_items clock k items acc =
     Inl (if items ! i = JNull then TypeError
          else Error (''Item at index '' @ show_nat (k + i) @ '' is missing fields.''))"
  using assms
proof (induction items arbitrary: i k acc)
  case Nil
  then show ?case by simp
next
  case (Cons x xs)
  show ?case
  proof (cases i)
    case 0
    with Cons.prems(3) show ?thesis by (auto simp: accepted_def)
  next
    case (Suc n)
    with Cons.prems(2) have "accepted ((x # xs) ! 0)" by blast
    then have x: "x \<noteq> JNull" "\<not> missing_fields x" by (simp_all add: accepted_def)
    have n: "n < length xs" using Cons.prems(1) Suc by simp
    have before: "\<forall>j<n. accepted (xs ! j)"
    proof (intro allI impI)
      fix j assume "j < n"
      then have "Suc j < i" using Suc by simp
      with Cons.prems(2) have "accepted ((x # xs) ! Suc j)" by blast
      then show "accepted (xs ! j)" by simp
    qed
    have bad: "\<not> accepted (xs ! n)" using Cons.prems(3) Suc by simp
    from Cons.IH [OF n before bad, of "Suc k"] x Suc show ?thesis by simp
  qed
qed

lemma first_bad_exists:
  assumes "\<not> list_all accepted items"
  shows "\<exists>i<length items. (\<forall>j<i. accepted (items ! j)) \<and> \<not> accepted (items ! i)"
  using assms
proof (induction items)
  case Nil
  then show ?case by simp
next
  case (Cons x xs)
  show ?case
  proof (cases "accepted x")
    case False
    then have "0 < length (x # xs) \<and> (\<forall>j<0. accepted ((x # xs) ! j)) \<and> \<not> accepted ((x # xs) ! 0)"
      by simp
    then show ?thesis by blast
  next
    case True
    with Cons.prems have "\<not> list_all accepted xs" by simp
    from Cons.IH [OF this] obtain i where i: "i < length xs" "\<forall>j<i. accepted (xs ! j)"
      "\<not> accepted (xs ! i)" by blast
    have "\<forall>j<Suc i. accepted ((x # xs) ! j)"
    proof (intro allI impI)
      fix j assume "j < Suc i"
      then show "accepted ((x # xs) ! j)" using True i(2) by (cases j) simp_all
    qed
    with i have "Suc i < length (x # xs) \<and> (\<forall>j<Suc i. accepted ((x # xs) ! j)) \<and>
        \<not> accepted ((x # xs) ! Suc i)"
      by simp
    then show ?thesis by blast
  qed
qed

lemma import_items_fails:
  assumes "\<not> list_all accepted items"
  shows "\<exists>e. import_items clock k items acc = Inl e"
proof -
  from first_bad_exists [OF assms] obtain i where
    "i < length items" "\<forall>j<i. accepted (items ! j)" "\<not> accepted (items ! i)" by blast
  from import_items_first_bad [OF this] show ?thesis by blast
qed

subsection \<open>The outcomes of an import\<close>

lemma import_empty:
  "trim (jsonInput s) = [] \<Longrightarrow> importJsonTasks P clock s = (None, s\<lparr>importError := Paste_first\<rparr>)"
  by (simp add: importJsonTasks_def)

lemma import_caught:
  assumes "trim (jsonInput s) \<noteq> []" "parse_and_validate P clock (trim (jsonInput s)) = Inl e"
  shows "importJsonTasks P clock s = (None, s\<lparr>importError := Invalid_JSON e\<rparr>)"
  using assms by (simp add: importJsonTasks_def)

lemma import_merged:
  assumes "trim (jsonInput s) \<noteq> []" "parse_and_validate P clock (trim (jsonInput s)) = Inr new"
    and "renderTasks (saveTasks (s\<lparr>importError := Cleared, tasks := tasks s @ new\<rparr>)) = Inr rows"
  shows "importJsonTasks P clock s =
     (Some (''Successfully imported '' @ show_nat (length new) @ '' tasks.''),
      (saveTasks (s\<lparr>importError := Cleared, tasks := tasks s @ new\<rparr>))\<lparr>jsonInput := []\<rparr>)"
  using assms by (simp add: importJsonTasks_def)

lemma render_rows_escapable:
  "list_all escapable ts \<Longrightarrow> \<exists>rows. render_rows ts = Inr rows"
proof (induction ts)
  case Nil
  then show ?case by simp
next
  case (Cons t ts)
  then have t: "escapable t" and ts: "list_all escapable ts" by simp_all
  from Cons.IH [OF ts] obtain rows where "render_rows ts = Inr rows" by blast
  with t show ?case by (auto simp: escapable_def split: sum.splits)
qed

lemma import_rendered:
  assumes "trim (jsonInput s) \<noteq> []" "parse_and_validate P clock (trim (jsonInput s)) = Inr new"
    and "list_all escapable (tasks s @ new)"
  shows "importJsonTasks P clock s =
     (Some (''Successfully imported '' @ show_nat (length new) @ '' tasks.''),
      (saveTasks (s\<lparr>importError := Cleared, tasks := tasks s @ new\<rparr>))\<lparr>jsonInput := []\<rparr>)"
proof -
  have "tasks (saveTasks (s\<lparr>importError := Cleared, tasks := tasks s @ new\<rparr>)) = tasks s @ new"
    by (simp add: saveTasks_def updateStats_def)
  with render_rows_escapable [OF assms(3)] obtain rows where
    "renderTasks (saveTasks (s\<lparr>importError := Cleared, tasks := tasks s @ new\<rparr>)) = Inr rows"
    by (auto simp: renderTasks_def)
  from import_merged [OF assms(1,2) this] show ?thesis .
qed

text \<open>When the rendering throws, the error line is set on the state that has the new tasks.\<close>

lemma import_merged_then_thrown:
  assumes "trim (jsonInput s) \<noteq> []" "parse_and_validate P clock (trim (jsonInput s)) = Inr new"
    and "renderTasks (saveTasks (s\<lparr>importError := Cleared, tasks := tasks s @ new\<rparr>)) = Inl e"
  shows "importJsonTasks P clock s =
     (None, (saveTasks (s\<lparr>importError := Cleared, tasks := tasks s @ new\<rparr>))
              \<lparr>importError := Invalid_JSON e\<rparr>)"
  using assms by (simp add: importJsonTasks_def)

lemma saveTasks_fields:
  "tasks (saveTasks s) = tasks s" "stored_tasks (saveTasks s) = Some (tasks s)"
  "importError (saveTasks s) = importError s" "stored_date (saveTasks s) = stored_date s"
  by (simp_all add: saveTasks_def updateStats_def)

lemma parse_not_array:
  assumes "P txt = Some v" "\<forall>items. v \<noteq> JArr items"
  shows "parse_and_validate P clock txt = Inl (Error ''JSON must be an array of objects.'')"
  using assms by (cases v) (simp_all add: parse_and_validate_def)

subsection \<open>Ids within one batch\<close>

lemma new_task_id: "task_id (new_task i x) = i"
  by (simp add: new_task_def)

lemma import_items_ids:
  assumes "import_items clock k items acc = Inr new"
  shows "map task_id new =
     map task_id acc @ map (\<lambda>i. clock i + int i) [k..<k + length items]"
proof -
  have ok: "list_all accepted items"
  proof (rule ccontr)
    assume "\<not> list_all accepted items"
    from import_items_fails [OF this, of clock k acc] assms show False by auto
  qed
  have "map task_id (map (\<lambda>(i, x). new_task (clock i + int i) x) zs) =
      map (\<lambda>i. clock i + int i) (map fst zs)" for zs :: "(nat \<times> json) list"
    by (induction zs) (auto simp: new_task_id)
  from this [of "zip [k..<k + length items] items"]
  have "map task_id (map (\<lambda>(i, x). new_task (clock i + int i) x)
          (zip [k..<k + length items] items)) =
      map (\<lambda>i. clock i + int i) [k..<k + length items]"
    by simp
  with import_items_accepted [OF ok, of clock k acc] assms show ?thesis by simp
qed

text \<open>With a clock that does not run backwards, the ids of one batch are distinct.\<close>

lemma batch_ids_distinct:
  assumes "import_items clock 0 items [] = Inr new" "\<forall>i j. i \<le> j \<longrightarrow> clock i \<le> clock j"
  shows "distinct (map task_id new)"
proof -
  have "inj_on (\<lambda>i. clock i + int i) (set [0..<length items])"
  proof (rule inj_onI)
    fix i j assume eq: "clock i + int i = clock j + int j"
    show "i = j"
    proof (rule ccontr)
      assume "i \<noteq> j"
      then consider "i < j" | "j < i" by linarith
      then show False
      proof cases
        case 1
        then have "clock i \<le> clock j" using assms(2) by simp
        with 1 eq show False by linarith
      next
        case 2
        then have "clock j \<le> clock i" using assms(2) by simp
        with 2 eq show False by linarith
      qed
    qed
  qed
  then have "distinct (map (\<lambda>i. clock i + int i) [0..<length items])"
    by (simp add: distinct_map)
  with import_items_ids [OF assms(1)] show ?thesis by simp
qed

subsection \<open>Statistics of tasks with proper minutes\<close>

lemma fold_minutes:
  assumes "list_all minutes_nonneg ts"
  shows "foldl (\<lambda>sum t. js_add sum (minutes t)) (Some a) ts = Some (a + sum_list (map minutes_int ts))"
  using assms
proof (induction ts arbitrary: a)
  case Nil
  then show ?case by simp
next
  case (Cons t ts)
  then have "minutes_nonneg t" and ts: "list_all minutes_nonneg ts" by simp_all
  then obtain m where m: "minutes t = Some m"
    by (auto simp: minutes_nonneg_def split: option.splits)
  from Cons.IH [OF ts, of "a + m"] m show ?case
    by (simp add: js_add_def minutes_int_def add.assoc)
qed

lemma sum_minutes_bounds:
  assumes "list_all minutes_nonneg ts"
  shows "0 \<le> sum_list (map minutes_int (filter completed ts)) \<and>
         sum_list (map minutes_int (filter completed ts)) \<le> sum_list (map minutes_int ts)"
  using assms
proof (induction ts)
  case Nil
  then show ?case by simp
next
  case (Cons t ts)
  then have t: "minutes_nonneg t" and ts: "list_all minutes_nonneg ts" by simp_all
  from t have "0 \<le> minutes_int t"
    by (auto simp: minutes_nonneg_def minutes_int_def split: option.splits)
  with Cons.IH [OF ts] show ?case by auto
qed

lemma stats_of_proper_tasks:
  assumes "list_all minutes_nonneg ts"
  shows "total_minutes ts = Some (sum_list (map minutes_int ts))"
    and "completed_minutes ts = Some (sum_list (map minutes_int (filter completed ts)))"
    and "percent (total_minutes ts) (completed_minutes ts) =
       Some (if sum_list (map minutes_int ts) = 0 then 0
             else 100 * rat_of_int (sum_list (map minutes_int (filter completed ts))) /
                  rat_of_int (sum_list (map minutes_int ts)))"
    and "\<exists>q. percent (total_minutes ts) (completed_minutes ts) = Some q \<and> 0 \<le> q \<and> q \<le> 100"
proof -
  let ?t = "sum_list (map minutes_int ts)" and ?c = "sum_list (map minutes_int (filter completed ts))"
  have sub: "list_all minutes_nonneg (filter completed ts)"
    using assms by (simp add: list_all_iff)
  show t: "total_minutes ts = Some ?t"
    using fold_minutes [OF assms, of 0] by (simp add: total_minutes_def)
  show c: "completed_minutes ts = Some ?c"
    using fold_minutes [OF sub, of 0] by (simp add: completed_minutes_def)
  show p: "percent (total_minutes ts) (completed_minutes ts) =
       Some (if ?t = 0 then 0 else 100 * rat_of_int ?c / rat_of_int ?t)"
    by (simp add: t c percent_def)
  note b = sum_minutes_bounds [OF assms]
  have "0 \<le> (if ?t = 0 then 0 else 100 * rat_of_int ?c / rat_of_int ?t) \<and>
        (if ?t = 0 then 0 else 100 * rat_of_int ?c / rat_of_int ?t) \<le> 100"
  proof (cases "?t = 0")
    case True
    then show ?thesis by simp
  next
    case False
    with b have pos: "0 < rat_of_int ?t" by simp
    have "rat_of_int ?c \<le> rat_of_int ?t" "0 \<le> rat_of_int ?c" using b by simp_all
    with pos False show ?thesis by (simp add: divide_le_eq)
  qed
  with p show "\<exists>q. percent (total_minutes ts) (completed_minutes ts) = Some q \<and> 0 \<le> q \<and> q \<le> 100"
    by blast
qed

subsection \<open>What the manual path checks\<close>

lemma dropWhile_none: "xs = [] \<or> \<not> P (hd xs) \<Longrightarrow> dropWhile P xs = xs"
  by (cases xs) auto

lemma trim_trim: "trim (trim x) = trim x"
proof -
  define y where "y = dropWhile is_ws x"
  define z where "z = dropWhile is_ws (rev y)"
  have z: "dropWhile is_ws z = z" unfolding z_def by (rule dropWhile_idem)
  have "rev z = [] \<or> \<not> is_ws (hd (rev z))"
  proof (cases "rev z")
    case Nil
    then show ?thesis by blast
  next
    case (Cons c cs)
    have "rev y = takeWhile is_ws (rev y) @ z" unfolding z_def by simp
    then have "rev (rev y) = rev (takeWhile is_ws (rev y) @ z)" by (rule arg_cong)
    then have "y = rev z @ rev (takeWhile is_ws (rev y))" by simp
    with Cons have yc: "y = c # (cs @ rev (takeWhile is_ws (rev y)))" by simp
    then have "y \<noteq> []" by (metis list.distinct(1))
    then have "\<not> is_ws (hd y)" unfolding y_def by (rule hd_dropWhile)
    moreover have "hd y = c" using yc by (metis list.sel(1))
    ultimately show ?thesis using Cons by simp
  qed
  then have "dropWhile is_ws (rev z) = rev z" by (rule dropWhile_none)
  then have "rev (dropWhile is_ws (rev (dropWhile is_ws (rev z)))) = rev z"
    by (simp add: z)
  then show ?thesis by (simp add: trim_def y_def z_def)
qed

lemma addManualTask_valid:
  assumes "fst (addManualTask now s) \<noteq> Alert ''Please fill in all fields correctly.''"
  shows "\<exists>t. tasks (snd (addManualTask now s)) = tasks s @ [t] \<and> task_valid t \<and>
           task_id t = now \<and> \<not> completed t"
proof -
  let ?subj = "trim (subjectInput s)" and ?top = "trim (topicInput s)"
  from assms have ok: "?subj \<noteq> []" "?top \<noteq> []"
    and m: "\<exists>m. parseInt (timeInput s) = Some m \<and> 0 < m"
    by (auto simp: addManualTask_def Let_def split: if_splits option.splits)
  from m obtain m where m: "parseInt (timeInput s) = Some m" "0 < m" by blast
  let ?t = "\<lparr>task_id = now, subject = JStr ?subj, topic = JStr ?top, minutes = Some m,
       completed = False\<rparr>"
  have "tasks (snd (addManualTask now s)) = tasks s @ [?t]"
    using ok m
    by (auto simp: addManualTask_def Let_def saveTasks_def updateStats_def split: sum.splits)
  moreover have "task_valid ?t" using ok m by (simp add: task_valid_def trim_trim)
  ultimately show ?thesis by auto
qed

text \<open>
  A later batch, read while the clock is still below the last id of an earlier one,
  starts at an id the earlier batch has used.
\<close>

lemma later_batch_reuses_id:
  assumes "import_items (\<lambda>i. T) 0 items [] = Inr old"
    and "import_items (\<lambda>i. T') 0 (x # xs) [] = Inr new"
    and "T \<le> T'" "T' < T + int (length items)"
  shows "T' \<in> set (map task_id old) \<and> T' \<in> set (map task_id new)"
proof -
  have old: "map task_id old = map (\<lambda>i. T + int i) [0..<length items]"
    using import_items_ids [OF assms(1)] by simp
  have new: "map task_id new = map (\<lambda>i. T' + int i) [0..<Suc (length xs)]"
    using import_items_ids [OF assms(2)] by simp
  have "nat (T' - T) < length items" "T' = T + int (nat (T' - T))"
    using assms(3,4) by simp_all
  then have "T' \<in> (\<lambda>i. T + int i) ` {0..<length items}"
    by (metis atLeastLessThan_iff imageI zero_le)
  then have a: "T' \<in> set (map task_id old)" by (simp add: old)
  have "T' = T' + int 0" "0 < Suc (length xs)" by simp_all
  then have "T' \<in> (\<lambda>i. T' + int i) ` {0..<Suc (length xs)}"
    by (metis atLeastLessThan_iff imageI le_refl)
  then have b: "T' \<in> set (map task_id new)" by (simp only: new set_map set_upt)
  from a b show ?thesis by blast
qed

section \<open>Claims about the planner\<close>

text \<open>
  An import that the loop, the parser or the first test turns down changes nothing but
  the error line, and the missing-fields message carries the index of the first element
  that is not accepted when that element is not \<open>null\<close>.
\<close>

lemma import_rejected_unchanged:
  "(trim (jsonInput s) = [] \<longrightarrow>
      importJsonTasks P clock s = (None, s\<lparr>importError := Paste_first\<rparr>)) \<and>
   (trim (jsonInput s) \<noteq> [] \<and> P (trim (jsonInput s)) = None \<longrightarrow>
      importJsonTasks P clock s = (None, s\<lparr>importError := Invalid_JSON SyntaxError\<rparr>)) \<and>
   (trim (jsonInput s) \<noteq> [] \<and> P (trim (jsonInput s)) = Some v \<and> (\<forall>xs. v \<noteq> JArr xs) \<longrightarrow>
      importJsonTasks P clock s =
        (None, s\<lparr>importError := Invalid_JSON (Error ''JSON must be an array of objects.'')\<rparr>)) \<and>
   (trim (jsonInput s) \<noteq> [] \<and> P (trim (jsonInput s)) = Some (JArr items) \<and>
      \<not> list_all accepted items \<longrightarrow>
      (\<exists>e. importJsonTasks P clock s = (None, s\<lparr>importError := Invalid_JSON e\<rparr>))) \<and>
   (trim (jsonInput s) \<noteq> [] \<and> P (trim (jsonInput s)) = Some (JArr items) \<and>
      i < length items \<and> (\<forall>j<i. accepted (items ! j)) \<and>
      items ! i \<noteq> JNull \<and> missing_fields (items ! i) \<longrightarrow>
      importJsonTasks P clock s =
        (None, s\<lparr>importError :=
           Invalid_JSON (Error (''Item at index '' @ show_nat i @ '' is missing fields.''))\<rparr>))"
proof (intro conjI impI)
  assume "trim (jsonInput s) = []"
  then show "importJsonTasks P clock s = (None, s\<lparr>importError := Paste_first\<rparr>)"
    by (rule import_empty)
next
  assume a: "trim (jsonInput s) \<noteq> [] \<and> P (trim (jsonInput s)) = None"
  then have "parse_and_validate P clock (trim (jsonInput s)) = Inl SyntaxError"
    by (simp add: parse_and_validate_def)
  with a show "importJsonTasks P clock s = (None, s\<lparr>importError := Invalid_JSON SyntaxError\<rparr>)"
    by (simp add: import_caught)
next
  assume a: "trim (jsonInput s) \<noteq> [] \<and> P (trim (jsonInput s)) = Some v \<and> (\<forall>xs. v \<noteq> JArr xs)"
  then have "parse_and_validate P clock (trim (jsonInput s)) =
      Inl (Error ''JSON must be an array of objects.'')"
    by (simp add: parse_not_array)
  with a show "importJsonTasks P clock s =
      (None, s\<lparr>importError := Invalid_JSON (Error ''JSON must be an array of objects.'')\<rparr>)"
    by (simp add: import_caught)
next
  assume a: "trim (jsonInput s) \<noteq> [] \<and> P (trim (jsonInput s)) = Some (JArr items) \<and>
      \<not> list_all accepted items"
  then have bad: "\<not> list_all accepted items" by simp
  from import_items_fails [OF bad, of clock 0 "[]"] a
  obtain e where "parse_and_validate P clock (trim (jsonInput s)) = Inl e"
    by (auto simp: parse_and_validate_def)
  with a have "importJsonTasks P clock s = (None, s\<lparr>importError := Invalid_JSON e\<rparr>)"
    by (simp add: import_caught)
  then show "\<exists>e. importJsonTasks P clock s = (None, s\<lparr>importError := Invalid_JSON e\<rparr>)"
    by blast
next
  assume a: "trim (jsonInput s) \<noteq> [] \<and> P (trim (jsonInput s)) = Some (JArr items) \<and>
      i < length items \<and> (\<forall>j<i. accepted (items ! j)) \<and>
      items ! i \<noteq> JNull \<and> missing_fields (items ! i)"
  then have i: "i < length items" "\<forall>j<i. accepted (items ! j)" "\<not> accepted (items ! i)"
    by (simp_all add: accepted_def)
  from import_items_first_bad [OF i, of clock 0 "[]"] a
  have "parse_and_validate P clock (trim (jsonInput s)) =
      Inl (Error (''Item at index '' @ show_nat i @ '' is missing fields.''))"
    by (simp add: parse_and_validate_def)
  with a show "importJsonTasks P clock s =
        (None, s\<lparr>importError :=
           Invalid_JSON (Error (''Item at index '' @ show_nat i @ '' is missing fields.''))\<rparr>)"
    by (simp add: import_caught)
qed

text \<open>The specification's batch, whose second item has only a subject, is turned down whole.\<close>

lemma missing_batch_rejected:
  "importJsonTasks (reads_as missing_batch_text missing_batch) (\<lambda>i. 1793700000000)
     (empty_planner
        \<lparr>tasks := [\<lparr>task_id = 7, subject = JStr ''Math'', topic = JStr ''Algebra'',
                    minutes = Some 30, completed = False\<rparr>],
         jsonInput := missing_batch_text\<rparr>) =
   (None,
    empty_planner
      \<lparr>tasks := [\<lparr>task_id = 7, subject = JStr ''Math'', topic = JStr ''Algebra'',
                  minutes = Some 30, completed = False\<rparr>],
       jsonInput := missing_batch_text,
       importError := Invalid_JSON (Error ''Item at index 1 is missing fields.'')\<rparr>)"
  by code_simp

text \<open>
  C4 fails on the code. The batch has one item whose subject is the number 5: the loop
  accepts it (5 is truthy), the task is merged into the collection and saved, and then
  \<open>renderTasks\<close>, still inside the \<open>try\<close>, throws on it. The import ends with the error
  line set and no alert of success, and the collection and the storage hold the new task.
  (An import turned down before the merge does leave everything as it was:
  \<open>import_rejected_unchanged\<close>.)
\<close>

theorem import_reports_error_after_insert:
  "fst (importJsonTasks (reads_as number_subject_batch_text number_subject_batch)
      (\<lambda>i. 1793700000000) (empty_planner\<lparr>jsonInput := number_subject_batch_text\<rparr>)) = None \<and>
   importError (snd (importJsonTasks (reads_as number_subject_batch_text number_subject_batch)
      (\<lambda>i. 1793700000000) (empty_planner\<lparr>jsonInput := number_subject_batch_text\<rparr>))) =
     Invalid_JSON TypeError \<and>
   tasks (snd (importJsonTasks (reads_as number_subject_batch_text number_subject_batch)
      (\<lambda>i. 1793700000000) (empty_planner\<lparr>jsonInput := number_subject_batch_text\<rparr>))) =
     [\<lparr>task_id = 1793700000000, subject = JNum 5, topic = JStr ''B'', minutes = Some 10,
        completed = False\<rparr>] \<and>
   stored_tasks (snd (importJsonTasks (reads_as number_subject_batch_text number_subject_batch)
      (\<lambda>i. 1793700000000) (empty_planner\<lparr>jsonInput := number_subject_batch_text\<rparr>))) =
     Some [\<lparr>task_id = 1793700000000, subject = JNum 5, topic = JStr ''B'', minutes = Some 10,
        completed = False\<rparr>] \<and>
   tasks (empty_planner\<lparr>jsonInput := number_subject_batch_text\<rparr>) = []"
  by code_simp

text \<open>
  C3 fails on the import path. The batch has all three fields in every item, so the loop
  accepts it, and the tasks that enter the collection have minutes \<open>-5\<close>, \<open>NaN\<close> and 0,
  the last with a blank subject: none satisfies the invariant of a task. (The manual
  path does check: \<open>addManualTask_valid\<close>.)
\<close>

theorem import_admits_invalid_tasks:
  "tasks (snd (importJsonTasks (reads_as unchecked_batch_text unchecked_batch) (\<lambda>i. 1793700000000)
      (empty_planner\<lparr>jsonInput := unchecked_batch_text\<rparr>))) =
     [\<lparr>task_id = 1793700000000, subject = JStr ''A'', topic = JStr ''B'', minutes = Some (- 5),
        completed = False\<rparr>,
      \<lparr>task_id = 1793700000001, subject = JStr ''A'', topic = JStr ''B'', minutes = None,
        completed = False\<rparr>,
      \<lparr>task_id = 1793700000002, subject = JStr ''  '', topic = JStr ''B'', minutes = Some 0,
        completed = False\<rparr>] \<and>
   list_all (\<lambda>t. \<not> task_valid t)
     (tasks (snd (importJsonTasks (reads_as unchecked_batch_text unchecked_batch)
        (\<lambda>i. 1793700000000) (empty_planner\<lparr>jsonInput := unchecked_batch_text\<rparr>))))"
proof -
  let ?s = "empty_planner\<lparr>jsonInput := unchecked_batch_text\<rparr>"
  let ?P = "reads_as unchecked_batch_text unchecked_batch"
  let ?new = "[\<lparr>task_id = 1793700000000, subject = JStr ''A'', topic = JStr ''B'',
        minutes = Some (- 5), completed = False\<rparr>,
      \<lparr>task_id = 1793700000001, subject = JStr ''A'', topic = JStr ''B'', minutes = None,
        completed = False\<rparr>,
      \<lparr>task_id = 1793700000002, subject = JStr ''  '', topic = JStr ''B'', minutes = Some 0,
        completed = False\<rparr>]"
  have a: "trim (jsonInput ?s) \<noteq> []" by code_simp
  have b: "parse_and_validate ?P (\<lambda>i. 1793700000000) (trim (jsonInput ?s)) = Inr ?new"
    by code_simp
  have c: "list_all escapable (tasks ?s @ ?new)" by code_simp
  have "snd (importJsonTasks ?P (\<lambda>i. 1793700000000) ?s) =
      (saveTasks (?s\<lparr>importError := Cleared, tasks := tasks ?s @ ?new\<rparr>))\<lparr>jsonInput := []\<rparr>"
    by (simp only: import_rendered [OF a b c] snd_conv)
  then have got: "tasks (snd (importJsonTasks ?P (\<lambda>i. 1793700000000) ?s)) = ?new"
    by (simp add: saveTasks_fields empty_planner_def)
  have bad: "list_all (\<lambda>t. \<not> task_valid t) ?new" by code_simp
  show ?thesis unfolding got using bad by (rule conjI [OF refl])
qed

text \<open>
  C2 fails against tasks already in the collection. Three items imported at one
  millisecond get that time plus 0, 1, 2 as ids; one item imported a millisecond later
  gets the id of the second. The ids are no longer distinct, and a change of the new
  task's checkbox marks the old task. (Within one batch the ids are distinct,
  \<open>batch_ids_distinct\<close>; for batches of any size, \<open>later_batch_reuses_id\<close>.)
\<close>

theorem import_reuses_ids:
  "map task_id (tasks (snd (importJsonTasks (reads_as one_batch_text one_batch)
      (\<lambda>i. 1793700000001)
      ((snd (importJsonTasks (reads_as three_batch_text three_batch) (\<lambda>i. 1793700000000)
          (empty_planner\<lparr>jsonInput := three_batch_text\<rparr>)))\<lparr>jsonInput := one_batch_text\<rparr>)))) =
     [1793700000000, 1793700000001, 1793700000002, 1793700000001] \<and>
   \<not> distinct (map task_id (tasks (snd (importJsonTasks (reads_as one_batch_text one_batch)
      (\<lambda>i. 1793700000001)
      ((snd (importJsonTasks (reads_as three_batch_text three_batch) (\<lambda>i. 1793700000000)
          (empty_planner\<lparr>jsonInput := three_batch_text\<rparr>)))\<lparr>jsonInput := one_batch_text\<rparr>))))) \<and>
   map completed (tasks (toggleTask 1793700000001 True
     (snd (importJsonTasks (reads_as one_batch_text one_batch)
      (\<lambda>i. 1793700000001)
      ((snd (importJsonTasks (reads_as three_batch_text three_batch) (\<lambda>i. 1793700000000)
          (empty_planner\<lparr>jsonInput := three_batch_text\<rparr>)))\<lparr>jsonInput := one_batch_text\<rparr>))))) =
     [False, True, False, False]"
proof -
  let ?s = "empty_planner\<lparr>jsonInput := three_batch_text\<rparr>"
  let ?three = "[\<lparr>task_id = 1793700000000, subject = JStr ''A'', topic = JStr ''B'',
        minutes = Some 10, completed = False\<rparr>,
      \<lparr>task_id = 1793700000001, subject = JStr ''C'', topic = JStr ''D'', minutes = Some 20,
        completed = False\<rparr>,
      \<lparr>task_id = 1793700000002, subject = JStr ''E'', topic = JStr ''F'', minutes = Some 30,
        completed = False\<rparr>]"
  let ?one = "[\<lparr>task_id = 1793700000001, subject = JStr ''G'', topic = JStr ''H'',
        minutes = Some 40, completed = False\<rparr>]"
  let ?s1 = "(saveTasks (?s\<lparr>importError := Cleared, tasks := tasks ?s @ ?three\<rparr>))\<lparr>jsonInput := []\<rparr>"
  let ?s1' = "?s1\<lparr>jsonInput := one_batch_text\<rparr>"
  let ?s2 = "(saveTasks (?s1'\<lparr>importError := Cleared, tasks := tasks ?s1' @ ?one\<rparr>))\<lparr>jsonInput := []\<rparr>"
  have a: "trim (jsonInput ?s) \<noteq> []" by code_simp
  have b: "parse_and_validate (reads_as three_batch_text three_batch) (\<lambda>i. 1793700000000)
      (trim (jsonInput ?s)) = Inr ?three"
    by code_simp
  have c: "list_all escapable (tasks ?s @ ?three)" by code_simp
  have first: "snd (importJsonTasks (reads_as three_batch_text three_batch)
      (\<lambda>i. 1793700000000) ?s) = ?s1"
    by (simp only: import_rendered [OF a b c] snd_conv)
  have a': "trim (jsonInput ?s1') \<noteq> []" by code_simp
  have b': "parse_and_validate (reads_as one_batch_text one_batch) (\<lambda>i. 1793700000001)
      (trim (jsonInput ?s1')) = Inr ?one"
    by code_simp
  have c': "list_all escapable (tasks ?s1' @ ?one)" by code_simp
  have second: "snd (importJsonTasks (reads_as one_batch_text one_batch)
      (\<lambda>i. 1793700000001) ?s1') = ?s2"
    by (simp only: import_rendered [OF a' b' c'] snd_conv)
  have ids: "map task_id (tasks ?s2) =
      [1793700000000, 1793700000001, 1793700000002, 1793700000001]"
    by code_simp
  have dup: "\<not> distinct (map task_id (tasks ?s2))" by code_simp
  have marked: "map completed (tasks (toggleTask 1793700000001 True ?s2)) =
      [False, True, False, False]"
    by code_simp
  show ?thesis unfolding first second using ids dup marked by blast
qed

text \<open>
  C8 fails on a collection the import lets in. Minutes 10 and \<open>-5\<close> imported, the first
  task checked: the total is 5, the completed minutes are 10, the bar is set to 200
  percent. (For tasks whose minutes are numbers that are not negative the three values
  are the sums and the quotient of the claim, within 0 and 100:
  \<open>stats_of_proper_tasks\<close>.)
\<close>

theorem negative_minutes_break_percent:
  "total_minutes (tasks (toggleTask 1793700000000 True
      (snd (importJsonTasks (reads_as negative_batch_text negative_batch) (\<lambda>i. 1793700000000)
         (empty_planner\<lparr>jsonInput := negative_batch_text\<rparr>))))) = Some 5 \<and>
   completed_minutes (tasks (toggleTask 1793700000000 True
      (snd (importJsonTasks (reads_as negative_batch_text negative_batch) (\<lambda>i. 1793700000000)
         (empty_planner\<lparr>jsonInput := negative_batch_text\<rparr>))))) = Some 10 \<and>
   progressBar_width (toggleTask 1793700000000 True
      (snd (importJsonTasks (reads_as negative_batch_text negative_batch) (\<lambda>i. 1793700000000)
         (empty_planner\<lparr>jsonInput := negative_batch_text\<rparr>)))) = Some 200"
proof -
  let ?s = "empty_planner\<lparr>jsonInput := negative_batch_text\<rparr>"
  let ?new = "[\<lparr>task_id = 1793700000000, subject = JStr ''A'', topic = JStr ''B'',
        minutes = Some 10, completed = False\<rparr>,
      \<lparr>task_id = 1793700000001, subject = JStr ''C'', topic = JStr ''D'',
        minutes = Some (- 5), completed = False\<rparr>]"
  let ?s1 = "(saveTasks (?s\<lparr>importError := Cleared, tasks := tasks ?s @ ?new\<rparr>))\<lparr>jsonInput := []\<rparr>"
  have a: "trim (jsonInput ?s) \<noteq> []" by code_simp
  have b: "parse_and_validate (reads_as negative_batch_text negative_batch)
      (\<lambda>i. 1793700000000) (trim (jsonInput ?s)) = Inr ?new"
    by code_simp
  have c: "list_all escapable (tasks ?s @ ?new)" by code_simp
  have imported: "snd (importJsonTasks (reads_as negative_batch_text negative_batch)
      (\<lambda>i. 1793700000000) ?s) = ?s1"
    by (simp only: import_rendered [OF a b c] snd_conv)
  have sums: "total_minutes (tasks (toggleTask 1793700000000 True ?s1)) = Some 5"
    "completed_minutes (tasks (toggleTask 1793700000000 True ?s1)) = Some 10"
    "progressBar_width (toggleTask 1793700000000 True ?s1) = Some 200"
    by code_simp+
  show ?thesis unfolding imported using sums by blast
qed

end
